theory Spec2Isabelle
  imports Complex_Main "HOL-Library.Option_ord" "HOL-Library.Product_Lexorder" "HOL-Library.Sublist"
begin

section \<open>The memory record and the SQLite table\<close>

text \<open>
  The Python code passes memories around as dictionaries. A dictionary with the twelve
  keys of \<^verbatim>\<open>_row_to_dict\<close> is modelled as a record; a key whose Python value is
  \<^verbatim>\<open>None\<close> (SQL \<^verbatim>\<open>NULL\<close>) is \<open>None\<close>. The columns \<^verbatim>\<open>id\<close>,
  \<^verbatim>\<open>type\<close> and \<^verbatim>\<open>value\<close> are named \<open>mem_id\<close>, \<open>mem_type\<close> and
  \<open>mem_value\<close>; a method named with a leading underscore in the source has that name
  without the underscore. Floating-point numbers are idealised as real numbers, except that
  the two places where the float arithmetic of \<^verbatim>\<open>_calculate_relevance\<close> raises
  \<^verbatim>\<open>OverflowError\<close> are modelled. Python integers are unbounded integers. An integer
  column of SQLite holds 64 bits: an integer parameter outside that range raises
  \<^verbatim>\<open>OverflowError\<close> when it is bound to a statement, which is modelled in
  \<^verbatim>\<open>update_memory_access\<close> and \<^verbatim>\<open>_text_search\<close>, and the records handed to
  \<^verbatim>\<open>store_memory\<close> are taken to carry integers within the range. Text is a list of
  characters with the codes 0 to 255, on which the operations of Python are modelled for
  the characters of ASCII.
\<close>

datatype py_error = TypeError | ValueError | AttributeError | OverflowError | OperationalError

definition int64 :: "int \<Rightarrow> bool" where
  "int64 n \<longleftrightarrow> - 9223372036854775808 \<le> n \<and> n \<le> 9223372036854775807"

record memory =
  mem_id :: "int option"
  session_id :: "string option"
  mem_type :: "string option"
  content :: "string option"
  key :: "string option"
  mem_value :: "string option"
  confidence :: "real option"
  source_turn :: "int option"
  created_at :: "string option"
  last_accessed :: "string option"
  access_count :: "int option"
  raw_text :: "string option"

text \<open>
  \<^verbatim>\<open>MemoryStorage\<close>: the rows of table \<^verbatim>\<open>memories\<close> in rowid order, the
  \<^verbatim>\<open>AUTOINCREMENT\<close> counter of SQLite (the largest rowid ever assigned), the flag
  \<^verbatim>\<open>vector_search_enabled\<close> and the list \<^verbatim>\<open>memory_id_map\<close>. The embedding
  vectors of the FAISS index belong to an external library and are not modelled.
\<close>

record storage =
  memories :: "memory list"
  seq :: int
  vector_search_enabled :: bool
  memory_id_map :: "int list"

definition empty_storage :: storage where
  "empty_storage =
     \<lparr>memories = [], seq = 0, vector_search_enabled = False, memory_id_map = []\<rparr>"

text \<open>Python truthiness of an optional string, as in \<^verbatim>\<open>if session_id:\<close>.\<close>

definition truthy :: "string option \<Rightarrow> bool" where
  "truthy s = (case s of None \<Rightarrow> False | Some t \<Rightarrow> t \<noteq> [])"

subsection \<open>store_memory\<close>

text \<open>
  The schema declares \<^verbatim>\<open>session_id\<close>, \<^verbatim>\<open>type\<close> and \<^verbatim>\<open>content\<close> as
  \<^verbatim>\<open>NOT NULL\<close> and \<^verbatim>\<open>UNIQUE(session_id, type, key, value, source_turn)\<close>.
  In SQLite two rows violate a \<^verbatim>\<open>UNIQUE\<close> constraint only when all the constrained
  columns are non-NULL and equal: NULL is distinct from every value, NULL included.
  Either violation raises \<^verbatim>\<open>sqlite3.IntegrityError\<close>, which \<^verbatim>\<open>store_memory\<close>
  answers with \<open>-1\<close>.
\<close>

definition sql_eq :: "'a option \<Rightarrow> 'a option \<Rightarrow> bool" where
  "sql_eq a b = (case a of None \<Rightarrow> False | Some x \<Rightarrow> b = Some x)"

definition not_null_ok :: "memory \<Rightarrow> bool" where
  "not_null_ok m = (session_id m \<noteq> None \<and> mem_type m \<noteq> None \<and> content m \<noteq> None)"

definition unique_conflict :: "memory \<Rightarrow> memory \<Rightarrow> bool" where
  "unique_conflict r m =
     (sql_eq (session_id r) (session_id m) \<and> sql_eq (mem_type r) (mem_type m) \<and>
      sql_eq (key r) (key m) \<and> sql_eq (mem_value r) (mem_value m) \<and>
      sql_eq (source_turn r) (source_turn m))"

definition row_ids :: "memory list \<Rightarrow> int list" where
  "row_ids rs = concat (map (\<lambda>r. case mem_id r of None \<Rightarrow> [] | Some i \<Rightarrow> [i]) rs)"

definition next_rowid :: "storage \<Rightarrow> int" where
  "next_rowid st = fold max (row_ids (memories st)) (seq st) + 1"

definition store_memory :: "storage \<Rightarrow> memory \<Rightarrow> int \<times> storage" where
  "store_memory st m =
     (if not_null_ok m \<and> list_all (\<lambda>r. \<not> unique_conflict r m) (memories st)
      then let memory_id = next_rowid st in
        (memory_id,
         st\<lparr>memories := memories st @ [m\<lparr>mem_id := Some memory_id\<rparr>],
            seq := memory_id,
            memory_id_map :=
              (if vector_search_enabled st then memory_id_map st @ [memory_id]
               else memory_id_map st)\<rparr>)
      else (- 1, st))"

fun store_memories :: "storage \<Rightarrow> memory list \<Rightarrow> int list \<times> storage" where
  "store_memories st [] = ([], st)"
| "store_memories st (m # ms) =
     (case store_memory st m of (memory_id, st') \<Rightarrow>
        (case store_memories st' ms of (memory_ids, st'') \<Rightarrow>
           ((if memory_id \<noteq> - 1 then [memory_id] else []) @ memory_ids, st'')))"

subsection \<open>get_memory, get_session_memories\<close>

definition get_memory :: "storage \<Rightarrow> int \<Rightarrow> memory option" where
  "get_memory st memory_id = find (\<lambda>r. mem_id r = Some memory_id) (memories st)"

text \<open>
  \<^verbatim>\<open>confidence >= ?\<close> is NULL, hence not true, on a NULL confidence.
  \<^verbatim>\<open>ORDER BY source_turn\<close> puts NULL first; rows of equal turn are taken in
  rowid order.
\<close>

definition sql_ge :: "real option \<Rightarrow> real \<Rightarrow> bool" where
  "sql_ge c x = (case c of None \<Rightarrow> False | Some y \<Rightarrow> x \<le> y)"

definition get_session_memories ::
  "storage \<Rightarrow> string \<Rightarrow> string option \<Rightarrow> real \<Rightarrow> memory list" where
  "get_session_memories st sid memory_type min_confidence =
     sort_key source_turn
       (filter (\<lambda>r. session_id r = Some sid \<and>
                     (if truthy memory_type then mem_type r = memory_type else True) \<and>
                     sql_ge (confidence r) min_confidence)
          (memories st))"

subsection \<open>update_memory_access\<close>

text \<open>
  The clock reading \<^verbatim>\<open>datetime.utcnow().isoformat()\<close> is the parameter
  \<open>now\<close>. \<^verbatim>\<open>access_count + 1\<close> is NULL on a NULL count. On the largest 64-bit
  integer the addition overflows and SQLite stores the floating-point number
  9223372036854775808.0 in the column; adding 1 to that number gives the same number again.
  A count above the 64-bit range stands for the floating-point number of that value.
  An id outside the 64-bit range raises \<^verbatim>\<open>OverflowError\<close> when it is bound.
\<close>

definition sql_add_one :: "int \<Rightarrow> int" where
  "sql_add_one n =
     (if n < 9223372036854775807 then n + 1
      else if n = 9223372036854775807 then 9223372036854775808
      else n)"

definition touch :: "string \<Rightarrow> memory \<Rightarrow> memory" where
  "touch now r =
     r\<lparr>last_accessed := Some now, access_count := map_option sql_add_one (access_count r)\<rparr>"

definition update_memory_access :: "storage \<Rightarrow> string \<Rightarrow> int \<Rightarrow> py_error + storage" where
  "update_memory_access st now memory_id =
     (if \<not> int64 memory_id then Inl OverflowError
      else Inr (st\<lparr>memories := map (\<lambda>r. if mem_id r = Some memory_id then touch now r else r)
                                  (memories st)\<rparr>))"

text \<open>
  \<^verbatim>\<open>update_memory_access\<close> called once per clock reading of a list, on the same id; the
  first exception ends the calls.
\<close>

fun update_memory_access_times :: "storage \<Rightarrow> string list \<Rightarrow> int \<Rightarrow> py_error + storage" where
  "update_memory_access_times st [] memory_id = Inr st"
| "update_memory_access_times st (now # ts) memory_id =
     (case update_memory_access st now memory_id of
        Inl e \<Rightarrow> Inl e
      | Inr st' \<Rightarrow> update_memory_access_times st' ts memory_id)"

subsection \<open>get_memory_stats\<close>

text \<open>
  \<^verbatim>\<open>COUNT(*)\<close> counts rows; \<^verbatim>\<open>AVG\<close>, \<^verbatim>\<open>MIN\<close> and \<^verbatim>\<open>MAX\<close> range over
  the non-NULL values of their column and are NULL when there is none.
\<close>

record stats =
  total_memories :: "int option"
  avg_confidence :: "real option"
  earliest_turn :: "int option"
  latest_turn :: "int option"

definition non_null :: "'a option list \<Rightarrow> 'a list" where
  "non_null xs = concat (map (\<lambda>x. case x of None \<Rightarrow> [] | Some v \<Rightarrow> [v]) xs)"

definition sql_avg :: "real option list \<Rightarrow> real option" where
  "sql_avg xs = (let vs = non_null xs in
     if vs = [] then None else Some (sum_list vs / real (length vs)))"

definition sql_min :: "int option list \<Rightarrow> int option" where
  "sql_min xs = (case non_null xs of [] \<Rightarrow> None | v # vs \<Rightarrow> Some (fold min vs v))"

definition sql_max :: "int option list \<Rightarrow> int option" where
  "sql_max xs = (case non_null xs of [] \<Rightarrow> None | v # vs \<Rightarrow> Some (fold max vs v))"

definition get_memory_stats :: "storage \<Rightarrow> string option \<Rightarrow> stats" where
  "get_memory_stats st sid =
     (let rows = (if truthy sid then filter (\<lambda>r. session_id r = sid) (memories st)
                  else memories st)
      in \<lparr>total_memories = Some (int (length rows)),
          avg_confidence = sql_avg (map confidence rows),
          earliest_turn = sql_min (map source_turn rows),
          latest_turn = sql_max (map source_turn rows)\<rparr>)"

subsection \<open>A stored record of the test suite\<close>

text \<open>The dictionary of \<^verbatim>\<open>test_update_access\<close> in \<^verbatim>\<open>tests/test_system.py\<close>.\<close>

definition test_memory :: memory where
  "test_memory =
     \<lparr>mem_id = None, session_id = Some ''test_session'', mem_type = Some ''fact'',
      content = Some ''test'', key = Some ''test'', mem_value = Some ''test'',
      confidence = Some 0.8, source_turn = Some 1,
      created_at = Some ''2024-01-01T00:00:00'', last_accessed = None,
      access_count = Some 0, raw_text = Some ''test''\<rparr>"

subsection \<open>A commitment without a value\<close>

text \<open>
  A record as \<^verbatim>\<open>extract_memories\<close> builds it from the text \<^verbatim>\<open>see you soon \<close>:
  the optional group of the last commitment pattern takes no part in the match, so
  \<^verbatim>\<open>value\<close> is \<^verbatim>\<open>None\<close>.
\<close>

definition null_value_memory :: memory where
  "null_value_memory =
     \<lparr>mem_id = None, session_id = Some ''s1'', mem_type = Some ''commitment'',
      content = Some ''soon '', key = Some ''scheduled_action'', mem_value = None,
      confidence = Some 0.8, source_turn = Some 3,
      created_at = Some ''2024-01-01T00:00:00'', last_accessed = None,
      access_count = Some 0, raw_text = Some ''see you soon ''\<rparr>"

section \<open>Post-processing of extracted memories\<close>

text \<open>
  \<^verbatim>\<open>deduplicate_memories\<close> renders \<^verbatim>\<open>type\<close>, \<^verbatim>\<open>key\<close> and \<^verbatim>\<open>value\<close> in an
  f-string: a string stands for itself and \<^verbatim>\<open>None\<close> for the text \<^verbatim>\<open>None\<close>. The
  loop carries the set \<^verbatim>\<open>seen\<close> and the list \<^verbatim>\<open>unique_memories\<close>.
\<close>

definition py_str :: "string option \<Rightarrow> string" where
  "py_str v = (case v of None \<Rightarrow> ''None'' | Some s \<Rightarrow> s)"

definition fingerprint :: "memory \<Rightarrow> string" where
  "fingerprint m = py_str (mem_type m) @ '':'' @ py_str (key m) @ '':'' @ py_str (mem_value m)"

fun dedup_loop :: "string set \<Rightarrow> memory list \<Rightarrow> memory list \<Rightarrow> memory list" where
  "dedup_loop seen unique_memories [] = unique_memories"
| "dedup_loop seen unique_memories (m # ms) =
     (if fingerprint m \<notin> seen
      then dedup_loop (insert (fingerprint m) seen) (unique_memories @ [m]) ms
      else dedup_loop seen unique_memories ms)"

definition deduplicate_memories :: "memory list \<Rightarrow> memory list" where
  "deduplicate_memories ms = dedup_loop {} [] ms"

text \<open>The list of \<^verbatim>\<open>test_deduplication\<close> in \<^verbatim>\<open>tests/test_system.py\<close>.\<close>

definition dedup_test :: "memory list" where
  "dedup_test =
     [\<lparr>mem_id = None, session_id = None, mem_type = Some ''preference'', content = None,
       key = Some ''language'', mem_value = Some ''Kannada'', confidence = None,
       source_turn = None, created_at = None, last_accessed = None, access_count = None,
       raw_text = None\<rparr>,
      \<lparr>mem_id = None, session_id = None, mem_type = Some ''preference'', content = None,
       key = Some ''language'', mem_value = Some ''Kannada'', confidence = None,
       source_turn = None, created_at = None, last_accessed = None, access_count = None,
       raw_text = None\<rparr>,
      \<lparr>mem_id = None, session_id = None, mem_type = Some ''preference'', content = None,
       key = Some ''name'', mem_value = Some ''John'', confidence = None,
       source_turn = None, created_at = None, last_accessed = None, access_count = None,
       raw_text = None\<rparr>]"

text \<open>
  The list of the test with one more record, which differs from the first in its
  \<open>value\<close> only.
\<close>

definition dedup_value_test :: "memory list" where
  "dedup_value_test =
     [dedup_test ! 0, dedup_test ! 1, (dedup_test ! 0)\<lparr>mem_value := Some ''Hindi''\<rparr>,
      dedup_test ! 2]"

text \<open>
  Position \<open>i\<close> of a list is a first occurrence when its fingerprint is neither in
  \<open>seen\<close> nor at an earlier position.
\<close>

definition is_first :: "string set \<Rightarrow> memory list \<Rightarrow> nat \<Rightarrow> bool" where
  "is_first seen ms i \<longleftrightarrow>
     fingerprint (ms ! i) \<notin> seen \<and> (\<forall>j<i. fingerprint (ms ! j) \<noteq> fingerprint (ms ! i))"

section \<open>Text search in the store\<close>

text \<open>
  \<^verbatim>\<open>_text_search\<close> runs \<^verbatim>\<open>content LIKE ? OR value LIKE ?\<close> with the pattern
  \<^verbatim>\<open>%query%\<close>. In SQLite's \<^verbatim>\<open>LIKE\<close>, \<^verbatim>\<open>%\<close> in the pattern matches any run of
  characters, \<^verbatim>\<open>_\<close> matches one character, and any other character matches itself up to
  the case of ASCII letters; \<^verbatim>\<open>LIKE\<close> on NULL is not true. \<open>like pattern t\<close> is that
  match of a whole text \<open>t\<close>. SQLite reads the pattern and the text as C strings, up to
  their first NUL character (\<open>c_string\<close>). A pattern of more than 50000 bytes makes
  \<^verbatim>\<open>LIKE\<close> fail with \<^verbatim>\<open>sqlite3.OperationalError\<close> on the first row it is
  applied to; in the UTF-8 encoding a character above code 127 takes two bytes.
\<close>

definition ascii_lower :: "char \<Rightarrow> char" where
  "ascii_lower c =
     (let n = (of_char c :: nat) in if 65 \<le> n \<and> n \<le> 90 then char_of (n + 32) else c)"

fun like :: "string \<Rightarrow> string \<Rightarrow> bool" where
  "like [] t = (t = [])"
| "like (p # ps) [] = (p = CHR ''%'' \<and> like ps [])"
| "like (p # ps) (c # t) =
     (if p = CHR ''%'' then like ps (c # t) \<or> like (p # ps) t
      else (p = CHR ''_'' \<or> ascii_lower p = ascii_lower c) \<and> like ps t)"

definition c_string :: "string \<Rightarrow> string" where
  "c_string s = takeWhile (\<lambda>c. c \<noteq> CHR 0x00) s"

definition sql_like :: "string option \<Rightarrow> string \<Rightarrow> bool" where
  "sql_like v pattern =
     (case v of None \<Rightarrow> False | Some t \<Rightarrow> like (c_string pattern) (c_string t))"

definition utf8_length :: "string \<Rightarrow> nat" where
  "utf8_length s = length s + length (filter (\<lambda>c. 128 \<le> (of_char c :: nat)) s)"

text \<open>
  \<^verbatim>\<open>ORDER BY confidence DESC\<close> puts NULL last; rows of equal confidence are taken in
  rowid order. The same stable descending sort models Python's
  \<^verbatim>\<open>sort(key=..., reverse=True)\<close>. \<^verbatim>\<open>LIMIT\<close> with a negative number is no limit,
  and with \<^verbatim>\<open>LIMIT 0\<close> no row is read. \<^verbatim>\<open>top_k\<close> is bound as a 64-bit integer.
  The rows of the session are found with \<^verbatim>\<open>session_id = ?\<close> and \<^verbatim>\<open>LIKE\<close> is
  applied to those only.
\<close>

definition sort_desc :: "('a \<Rightarrow> 'k::linorder) \<Rightarrow> 'a list \<Rightarrow> 'a list" where
  "sort_desc f xs = rev (sort_key f (rev xs))"

definition sql_limit :: "int \<Rightarrow> 'a list \<Rightarrow> 'a list" where
  "sql_limit k xs = (if k < 0 then xs else take (nat k) xs)"

definition text_search ::
  "storage \<Rightarrow> string \<Rightarrow> string option \<Rightarrow> int \<Rightarrow> py_error + memory list" where
  "text_search st query sid top_k =
     (let query_pattern = ''%'' @ query @ ''%'';
          session_rows = filter (\<lambda>r. if truthy sid then session_id r = sid else True)
                           (memories st)
      in if \<not> int64 top_k then Inl OverflowError
         else if top_k \<noteq> 0 \<and> session_rows \<noteq> [] \<and> 50000 < utf8_length query_pattern
         then Inl OperationalError
         else Inr (sql_limit top_k
                (sort_desc confidence
                   (filter (\<lambda>r. sql_like (content r) query_pattern \<or>
                                 sql_like (mem_value r) query_pattern)
                      session_rows))))"

text \<open>
  The two records of \<^verbatim>\<open>test_retrieve_relevant_memories\<close> in
  \<^verbatim>\<open>tests/test_system.py\<close>, and the store after inserting them.
\<close>

definition retrieval_test_memories :: "memory list" where
  "retrieval_test_memories =
     [\<lparr>mem_id = None, session_id = Some ''test_session'', mem_type = Some ''preference'',
       content = Some ''language is Kannada'', key = Some ''language'',
       mem_value = Some ''Kannada'', confidence = Some 0.95, source_turn = Some 1,
       created_at = Some ''2024-01-01T00:00:00'', last_accessed = None,
       access_count = Some 0, raw_text = Some ''My language is Kannada''\<rparr>,
      \<lparr>mem_id = None, session_id = Some ''test_session'', mem_type = Some ''constraint'',
       content = Some ''call after 11 AM'', key = Some ''time_constraint'',
       mem_value = Some ''after 11 AM'', confidence = Some 0.9, source_turn = Some 5,
       created_at = Some ''2024-01-01T00:00:00'', last_accessed = None,
       access_count = Some 0, raw_text = Some ''Please call after 11 AM''\<rparr>]"

definition retrieval_test_storage :: storage where
  "retrieval_test_storage = snd (store_memories empty_storage retrieval_test_memories)"

text \<open>
  \<open>contains_ci q v\<close>: the text \<open>v\<close> is present and contains \<open>q\<close> as a contiguous
  substring, up to the case of ASCII letters. \<open>sql_text v\<close> is the part of a text that
  \<^verbatim>\<open>LIKE\<close> reads.
\<close>

definition sql_text :: "string option \<Rightarrow> string option" where
  "sql_text v = map_option c_string v"

definition contains_ci :: "string \<Rightarrow> string option \<Rightarrow> bool" where
  "contains_ci q v =
     (case v of None \<Rightarrow> False | Some t \<Rightarrow> sublist (map ascii_lower q) (map ascii_lower t))"

section \<open>Retrieval\<close>

text \<open>
  The dictionary \<^verbatim>\<open>memory_copy\<close> with the extra key \<^verbatim>\<open>relevance_score\<close>.
\<close>

record scored_memory = memory +
  relevance_score :: real

subsection \<open>Semantic similarity\<close>

text \<open>
  \<^verbatim>\<open>str.split()\<close> splits at runs of whitespace and drops empty words; on 8-bit
  characters below 128 the whitespace of Python is the codes 9 to 13 and 28 to 32.
  \<^verbatim>\<open>str.lower()\<close> is modelled on ASCII letters.
\<close>

definition is_space :: "char \<Rightarrow> bool" where
  "is_space c = (let n = (of_char c :: nat) in (9 \<le> n \<and> n \<le> 13) \<or> (28 \<le> n \<and> n \<le> 32))"

fun split_from :: "string \<Rightarrow> string \<Rightarrow> string list" where
  "split_from w [] = (if w = [] then [] else [w])"
| "split_from w (c # cs) =
     (if is_space c then (if w = [] then split_from [] cs else w # split_from [] cs)
      else split_from (w @ [c]) cs)"

definition py_split :: "string \<Rightarrow> string list" where
  "py_split s = split_from [] s"

definition py_lower :: "string \<Rightarrow> string" where
  "py_lower s = map ascii_lower s"

definition stopwords :: "string set" where
  "stopwords = {''the'', ''a'', ''an'', ''and'', ''or'', ''but'', ''in'', ''on'', ''at'', ''to'',
                ''for'', ''of'', ''is'', ''are''}"

definition calculate_semantic_similarity :: "string \<Rightarrow> string \<Rightarrow> real" where
  "calculate_semantic_similarity memory_content query =
     (let memory_words = set (py_split (py_lower memory_content)) - stopwords;
          query_words = set (py_split (py_lower query)) - stopwords
      in if memory_words = {} \<or> query_words = {} then 0
         else let n_intersection = card (memory_words \<inter> query_words);
                  n_union = card (memory_words \<union> query_words)
              in if n_union > 0 then real n_intersection / real n_union else 0)"

subsection \<open>The relevance score\<close>

text \<open>
  \<^verbatim>\<open>_calculate_relevance\<close>. Every key of a stored row is present in the dictionary, so
  the defaults of \<^verbatim>\<open>memory.get\<close> are never used; a NULL turn or access count raises
  \<^verbatim>\<open>TypeError\<close> in the arithmetic, \<^verbatim>\<open>math.log\<close> of a number that is not positive
  raises \<^verbatim>\<open>ValueError\<close>, a NULL content raises \<^verbatim>\<open>AttributeError\<close> at
  \<^verbatim>\<open>.lower()\<close>, and a NULL confidence raises \<^verbatim>\<open>TypeError\<close> in the weighted sum.
  The recency score raises \<^verbatim>\<open>OverflowError\<close> in two cases. The division
  \<^verbatim>\<open>-turn_distance / 100\<close> of integers raises it when the quotient rounds to no
  floating-point number, which is when \<open>\<bar>turn_distance\<bar>\<close> is at least
  \<open>float_division_limit\<close>; and \<^verbatim>\<open>math.exp\<close> raises it on an argument above
  709.78, the logarithm of the largest floating-point number, which is when
  \<open>- turn_distance\<close> is at least 70979. Apart from that the arithmetic is over the
  reals, without rounding.
\<close>

definition float_division_limit :: int where
  "float_division_limit = 100 * (2 ^ 1024 - 2 ^ 970)"

definition float_division_overflows :: "int \<Rightarrow> bool" where
  "float_division_overflows turn_distance \<longleftrightarrow> float_division_limit \<le> \<bar>turn_distance\<bar>"

definition exp_overflows :: "int \<Rightarrow> bool" where
  "exp_overflows turn_distance \<longleftrightarrow> 70979 \<le> - turn_distance"

definition type_priorities :: "string option \<Rightarrow> real" where
  "type_priorities t =
     (if t = Some ''instruction'' then 1.0
      else if t = Some ''preference'' then 0.9
      else if t = Some ''commitment'' then 0.85
      else if t = Some ''constraint'' then 0.8
      else if t = Some ''fact'' then 0.7
      else if t = Some ''entity'' then 0.6
      else 0.5)"

definition calculate_relevance :: "'a memory_scheme \<Rightarrow> int \<Rightarrow> string \<Rightarrow> py_error + real" where
  "calculate_relevance m current_turn user_message =
     (case source_turn m of None \<Rightarrow> Inl TypeError | Some turn \<Rightarrow>
      let turn_distance = current_turn - turn in
      if float_division_overflows turn_distance \<or> exp_overflows turn_distance
      then Inl OverflowError
      else
      let recency_score = exp (- real_of_int turn_distance / 100)
      in case access_count m of None \<Rightarrow> Inl TypeError | Some count \<Rightarrow>
         if count + 1 \<le> 0 then Inl ValueError
         else let access_score = min 1.0 (ln (real_of_int (count + 1)) / ln 10)
         in case content m of None \<Rightarrow> Inl AttributeError | Some text \<Rightarrow>
            let semantic_score = calculate_semantic_similarity text user_message;
                type_score = type_priorities (mem_type m)
            in case confidence m of None \<Rightarrow> Inl TypeError | Some confidence_score \<Rightarrow>
               Inr (min 1.0 ((0.3 * recency_score + 0.4 * confidence_score +
                              0.2 * access_score + 0.1 * semantic_score) * type_score)))"

subsection \<open>Diversity filter\<close>

text \<open>
  The two loops of \<^verbatim>\<open>_apply_diversity_filter\<close>; each leaves at the \<^verbatim>\<open>break\<close> as
  soon as the list has \<open>max_count\<close> elements after an append. \<open>div\<close> on integers
  rounds down, as \<^verbatim>\<open>//\<close> does.
\<close>

fun diversity_loop ::
  "int \<Rightarrow> scored_memory list \<Rightarrow> (string option \<Rightarrow> nat) \<Rightarrow> string option set \<Rightarrow>
   scored_memory list \<Rightarrow> scored_memory list" where
  "diversity_loop max_count diverse type_counts seen_keys [] = diverse"
| "diversity_loop max_count diverse type_counts seen_keys (m # ms) =
     (if type_counts (mem_type m) < 2 \<and>
         (key m \<notin> seen_keys \<or> int (length diverse) < max_count div 2)
      then if max_count \<le> int (length (diverse @ [m])) then diverse @ [m]
           else diversity_loop max_count (diverse @ [m])
                  (type_counts(mem_type m := type_counts (mem_type m) + 1))
                  (insert (key m) seen_keys) ms
      else diversity_loop max_count diverse type_counts seen_keys ms)"

fun fill_loop :: "int \<Rightarrow> scored_memory list \<Rightarrow> scored_memory list \<Rightarrow> scored_memory list" where
  "fill_loop max_count diverse [] = diverse"
| "fill_loop max_count diverse (m # ms) =
     (if m \<notin> set diverse
      then if max_count \<le> int (length (diverse @ [m])) then diverse @ [m]
           else fill_loop max_count (diverse @ [m]) ms
      else fill_loop max_count diverse ms)"

definition apply_diversity_filter :: "scored_memory list \<Rightarrow> int \<Rightarrow> scored_memory list" where
  "apply_diversity_filter ms max_count =
     (if int (length ms) \<le> max_count then ms
      else let diverse = diversity_loop max_count [] (\<lambda>t. 0) {} ms
           in if int (length diverse) < max_count then fill_loop max_count diverse ms
              else diverse)"

text \<open>The slice \<^verbatim>\<open>xs[:k]\<close>; a negative \<open>k\<close> counts from the end.\<close>

definition py_slice_to :: "int \<Rightarrow> 'a list \<Rightarrow> 'a list" where
  "py_slice_to k xs = (if 0 \<le> k then take (nat k) xs else take (nat (int (length xs) + k)) xs)"

subsection \<open>retrieve_relevant_memories\<close>

text \<open>
  The scoring loop stops at the first exception. The access statistics of the selected
  memories are updated one after the other, the \<open>n\<close>-th update with the clock reading
  \<open>clock n\<close>, up to the first exception; the function returns the selection and the
  updated store.
\<close>

fun score_all ::
  "memory list \<Rightarrow> int \<Rightarrow> string \<Rightarrow> real \<Rightarrow> py_error + scored_memory list" where
  "score_all [] current_turn user_message min_relevance = Inr []"
| "score_all (m # ms) current_turn user_message min_relevance =
     (case calculate_relevance m current_turn user_message of
        Inl e \<Rightarrow> Inl e
      | Inr score \<Rightarrow>
          (case score_all ms current_turn user_message min_relevance of
             Inl e \<Rightarrow> Inl e
           | Inr scored \<Rightarrow>
               Inr ((if min_relevance \<le> score
                     then [memory.extend m \<lparr>relevance_score = score\<rparr>]
                     else []) @ scored)))"

fun update_all ::
  "storage \<Rightarrow> (nat \<Rightarrow> string) \<Rightarrow> nat \<Rightarrow> scored_memory list \<Rightarrow> py_error + storage" where
  "update_all st clock n [] = Inr st"
| "update_all st clock n (m # ms) =
     (case mem_id m of
        None \<Rightarrow> update_all st clock (Suc n) ms
      | Some i \<Rightarrow>
          (case update_memory_access st (clock n) i of
             Inl e \<Rightarrow> Inl e
           | Inr st' \<Rightarrow> update_all st' clock (Suc n) ms))"

definition retrieve_relevant_memories ::
  "storage \<Rightarrow> (nat \<Rightarrow> string) \<Rightarrow> string \<Rightarrow> int \<Rightarrow> string \<Rightarrow> int \<Rightarrow> real \<Rightarrow>
   py_error + (scored_memory list \<times> storage)" where
  "retrieve_relevant_memories st clock sid current_turn user_message max_memories min_relevance =
     (let all_memories = get_session_memories st sid None 0.0 in
      if all_memories = [] then Inr ([], st)
      else case score_all all_memories current_turn user_message min_relevance of
             Inl e \<Rightarrow> Inl e
           | Inr scored \<Rightarrow>
               let scored_memories = sort_desc relevance_score scored;
                   diverse_memories = apply_diversity_filter scored_memories max_memories
               in case update_all st clock 0 diverse_memories of
                    Inl e \<Rightarrow> Inl e
                  | Inr st' \<Rightarrow> Inr (py_slice_to max_memories diverse_memories, st'))"

subsection \<open>retrieve_by_type, retrieve_critical_memories\<close>





text \<open>
  A row on which \<^verbatim>\<open>_calculate_relevance\<close> raises no exception at the turn
  \<open>current_turn\<close>: no column that the score reads is NULL, the access count is not
  negative, and the source turn is fewer than 70979 turns after the current turn and fewer
  than \<open>float_division_limit\<close> turns before it. A row whose id can be bound to the
  statement of \<^verbatim>\<open>update_memory_access\<close>, as every rowid of SQLite can.
\<close>

definition scorable :: "int \<Rightarrow> 'a memory_scheme \<Rightarrow> bool" where
  "scorable current_turn m \<longleftrightarrow>
     (case source_turn m of
        None \<Rightarrow> False
      | Some turn \<Rightarrow> turn - current_turn < 70979 \<and>
                     \<bar>current_turn - turn\<bar> < float_division_limit) \<and>
     content m \<noteq> None \<and> confidence m \<noteq> None \<and>
     (case access_count m of None \<Rightarrow> False | Some c \<Rightarrow> 0 \<le> c)"

definition id_in_range :: "'a memory_scheme \<Rightarrow> bool" where
  "id_in_range m = (case mem_id m of None \<Rightarrow> True | Some i \<Rightarrow> int64 i)"



section \<open>Extraction\<close>

subsection \<open>Regular expressions\<close>

text \<open>
  The patterns of \<^verbatim>\<open>MemoryExtractor\<close> use literals, the classes \<^verbatim>\<open>.\<close>,
  \<^verbatim>\<open>\s\<close>, \<^verbatim>\<open>\d\<close>, \<^verbatim>\<open>\w\<close> and character ranges, sequence, alternation, the
  greedy quantifiers \<^verbatim>\<open>*\<close>, \<^verbatim>\<open>+\<close> and \<^verbatim>\<open>?\<close>, capturing groups and \<^verbatim>\<open>\b\<close>.
  Non-capturing groups are plain nesting. Character classes are those of Python on
  characters below 128.
\<close>

datatype atom = Lit char | Dot | Wsp | Dig | Wrd | Rng char char

datatype regex =
    Atom atom
  | Eps
  | Seq regex regex
  | Alt regex regex
  | Star regex
  | Plus regex
  | Opt regex
  | Group nat regex
  | WordB

definition ascii_upper :: "char \<Rightarrow> char" where
  "ascii_upper c =
     (let n = (of_char c :: nat) in if 97 \<le> n \<and> n \<le> 122 then char_of (n - 32) else c)"

definition in_range :: "char \<Rightarrow> char \<Rightarrow> char \<Rightarrow> bool" where
  "in_range a b x = ((of_char a :: nat) \<le> of_char x \<and> (of_char x :: nat) \<le> of_char b)"

definition is_digit :: "char \<Rightarrow> bool" where
  "is_digit x = in_range CHR ''0'' CHR ''9'' x"

definition is_word :: "char \<Rightarrow> bool" where
  "is_word x = (in_range CHR ''a'' CHR ''z'' x \<or> in_range CHR ''A'' CHR ''Z'' x \<or>
                is_digit x \<or> x = CHR ''_'')"

fun atom_ok :: "bool \<Rightarrow> atom \<Rightarrow> char \<Rightarrow> bool" where
  "atom_ok ic (Lit c) x = (if ic then ascii_lower c = ascii_lower x else c = x)"
| "atom_ok ic Dot x = (x \<noteq> CHR 0x0A)"
| "atom_ok ic Wsp x = is_space x"
| "atom_ok ic Dig x = is_digit x"
| "atom_ok ic Wrd x = is_word x"
| "atom_ok ic (Rng a b) x =
     (in_range a b x \<or> (ic \<and> (in_range a b (ascii_lower x) \<or> in_range a b (ascii_upper x))))"

text \<open>
  A matcher state is the character before the current position (for \<^verbatim>\<open>\b\<close>), the text
  still to be read and the groups captured so far. \<open>rmatch ic r st\<close> lists the states
  after every way of matching \<open>r\<close> at \<open>st\<close>, in the order in which the backtracking
  matcher of Python's \<^verbatim>\<open>re\<close> tries them: the first alternative first, one more
  iteration before none. The first element is the match that \<^verbatim>\<open>re\<close> reports.
  \<open>ic\<close> is the flag \<^verbatim>\<open>re.IGNORECASE\<close>. An iteration of \<^verbatim>\<open>*\<close> or \<^verbatim>\<open>+\<close> that
  reads no character is not repeated; so at most as many iterations as characters are left
  can follow, which is the bound given to \<open>star_iter\<close>.
\<close>

type_synonym groups = "nat \<Rightarrow> string option"
type_synonym mstate = "char option \<times> string \<times> groups"

definition rest :: "mstate \<Rightarrow> string" where
  "rest st = fst (snd st)"

fun star_iter :: "(mstate \<Rightarrow> mstate list) \<Rightarrow> nat \<Rightarrow> mstate \<Rightarrow> mstate list" where
  "star_iter f 0 st = [st]"
| "star_iter f (Suc n) st =
     concat (map (star_iter f n)
               (filter (\<lambda>st'. length (rest st') < length (rest st)) (f st))) @ [st]"

definition word_opt :: "char option \<Rightarrow> bool" where
  "word_opt c = (case c of None \<Rightarrow> False | Some x \<Rightarrow> is_word x)"

primrec rmatch :: "bool \<Rightarrow> regex \<Rightarrow> mstate \<Rightarrow> mstate list" where
  "rmatch ic (Atom a) = (\<lambda>st. case st of (p, s, g) \<Rightarrow>
     (case s of [] \<Rightarrow> [] | x # xs \<Rightarrow> if atom_ok ic a x then [(Some x, xs, g)] else []))"
| "rmatch ic Eps = (\<lambda>st. [st])"
| "rmatch ic (Seq r1 r2) = (\<lambda>st. concat (map (rmatch ic r2) (rmatch ic r1 st)))"
| "rmatch ic (Alt r1 r2) = (\<lambda>st. rmatch ic r1 st @ rmatch ic r2 st)"
| "rmatch ic (Star r) = (\<lambda>st. star_iter (rmatch ic r) (length (rest st)) st)"
| "rmatch ic (Plus r) = (\<lambda>st.
     concat (map (\<lambda>st'. star_iter (rmatch ic r) (length (rest st')) st') (rmatch ic r st)))"
| "rmatch ic (Opt r) = (\<lambda>st. rmatch ic r st @ [st])"
| "rmatch ic (Group n r) = (\<lambda>st. case st of (p, s, g) \<Rightarrow>
     map (\<lambda>(p', s', g'). (p', s', g'(n \<mapsto> take (length s - length s') s)))
       (rmatch ic r (p, s, g)))"
| "rmatch ic WordB = (\<lambda>st. case st of (p, s, g) \<Rightarrow>
     if word_opt p \<noteq> word_opt (case s of [] \<Rightarrow> None | x # _ \<Rightarrow> Some x) then [st] else [])"

text \<open>A literal word, a sequence of patterns and an alternation of patterns.\<close>

definition str :: "string \<Rightarrow> regex" where
  "str s = foldr (\<lambda>c r. Seq (Atom (Lit c)) r) s Eps"

definition cat :: "regex list \<Rightarrow> regex" where
  "cat rs = foldr Seq rs Eps"

fun alt :: "regex list \<Rightarrow> regex" where
  "alt [] = Eps"
| "alt [r] = r"
| "alt (r # rs) = Alt r (alt rs)"

text \<open>
  A match object: \<^verbatim>\<open>group(0)\<close> and \<^verbatim>\<open>group(1)\<close>, the latter \<^verbatim>\<open>None\<close> when the
  first group took no part in the match. \<^verbatim>\<open>re.search\<close> reports the first match at the
  leftmost position that has one; \<^verbatim>\<open>re.finditer\<close> goes on after the end of each match
  (one character further after an empty match).
\<close>

record re_match =
  group0 :: string
  group1 :: "string option"

definition match_here :: "bool \<Rightarrow> regex \<Rightarrow> char option \<Rightarrow> string \<Rightarrow> (re_match \<times> char option \<times> string) option" where
  "match_here ic r p s =
     (case rmatch ic r (p, s, \<lambda>n. None) of
        [] \<Rightarrow> None
      | (p', s', g) # _ \<Rightarrow>
          Some (\<lparr>group0 = take (length s - length s') s, group1 = g 1\<rparr>, p', s'))"

fun search_from :: "bool \<Rightarrow> regex \<Rightarrow> char option \<Rightarrow> string \<Rightarrow> re_match option" where
  "search_from ic r p [] = map_option fst (match_here ic r p [])"
| "search_from ic r p (x # xs) =
     (case match_here ic r p (x # xs) of
        Some (m, _) \<Rightarrow> Some m
      | None \<Rightarrow> search_from ic r (Some x) xs)"

definition re_search :: "bool \<Rightarrow> regex \<Rightarrow> string \<Rightarrow> re_match option" where
  "re_search ic r s = search_from ic r None s"

fun finditer_from :: "bool \<Rightarrow> regex \<Rightarrow> char option \<Rightarrow> string \<Rightarrow> re_match list" where
  "finditer_from ic r p [] =
     (case match_here ic r p [] of None \<Rightarrow> [] | Some (m, _) \<Rightarrow> [m])"
| "finditer_from ic r p (x # xs) =
     (case match_here ic r p (x # xs) of
        None \<Rightarrow> finditer_from ic r (Some x) xs
      | Some (m, p', s') \<Rightarrow>
          if length s' < length (x # xs) then m # finditer_from ic r p' s'
          else m # finditer_from ic r (Some x) xs)"

definition finditer :: "bool \<Rightarrow> regex \<Rightarrow> string \<Rightarrow> re_match list" where
  "finditer ic r s = finditer_from ic r None s"

subsection \<open>The patterns of the extractor\<close>

text \<open>\<^verbatim>\<open>\s+\<close>, \<^verbatim>\<open>.+\<close> and a single literal character.\<close>

definition ws1 :: regex where "ws1 = Plus (Atom Wsp)"
definition any1 :: regex where "any1 = Plus (Atom Dot)"
definition ch :: "char \<Rightarrow> regex" where "ch c = Atom (Lit c)"

definition preference_patterns :: "regex list" where
  "preference_patterns =
     [cat [str ''prefer'', Opt (ch CHR ''s''), ws1, Group 1 any1],
      cat [str ''like'', Opt (ch CHR ''s''), ws1, Group 1 any1],
      cat [str ''favorite'', ws1, Group 1 any1],
      cat [str ''my'', ws1, Group 1 any1, ws1, str ''is'', ws1, Group 2 any1],
      cat [str ''call me'', ws1, Group 1 any1],
      cat [str ''language'', ws1, str ''is'', ws1, Group 1 (Plus (Atom Wrd))]]"

definition constraint_patterns :: "regex list" where
  "constraint_patterns =
     [cat [alt [str ''only'', str ''must'', str ''should'', str ''need to''], ws1, Group 1 any1],
      cat [alt [str ''before'', str ''after'', str ''by''], ws1,
           Group 1 (cat [Plus (Atom Dig), Opt (cat [ch CHR '':'', Plus (Atom Dig)]),
                         Opt (cat [Star (Atom Wsp),
                                   alt [str ''AM'', str ''PM'', str ''am'', str ''pm'']])])],
      cat [alt [str ''not available'', str ''busy'', str ''occupied''], ws1, Group 1 any1],
      cat [alt [str ''don't'', str ''do not'', str ''never''], ws1, Group 1 any1]]"

definition commitment_patterns :: "regex list" where
  "commitment_patterns =
     [cat [alt [str ''will'', str ''going to'', str ''planning to''], ws1, Group 1 any1],
      cat [alt [str ''call'', str ''email'', str ''text'', str ''message'', str ''contact''],
           ws1, Group 1 any1],
      cat [alt [str ''remind me'', str ''schedule'', str ''set up''], ws1, Group 1 any1],
      cat [alt [str ''tomorrow'', str ''next week'', str ''later'', str ''soon''], ws1,
           Opt (Group 1 any1)]]"

definition instruction_patterns :: "regex list" where
  "instruction_patterns =
     [cat [alt [str ''always'', str ''never'', str ''from now on''], ws1, Group 1 any1],
      cat [alt [str ''remember to'', str ''make sure to''], ws1, Group 1 any1],
      cat [alt [str ''whenever'', str ''if''], ws1, Group 1 any1]]"

definition entity_pattern :: regex where
  "entity_pattern =
     cat [WordB,
          Group 1 (cat [Atom (Rng CHR ''A'' CHR ''Z''), Plus (Atom (Rng CHR ''a'' CHR ''z'')),
                        Star (cat [ws1, Atom (Rng CHR ''A'' CHR ''Z''),
                                   Plus (Atom (Rng CHR ''a'' CHR ''z''))])]),
          WordB]"

definition fact_patterns :: "regex list" where
  "fact_patterns =
     [cat [Group 1 any1, ws1, alt [str ''is'', str ''are'', str ''was'', str ''were''], ws1,
           Group 2 any1],
      cat [str ''my'', ws1, Group 1 any1]]"

text \<open>
  The number of capturing groups of a pattern: \<^verbatim>\<open>match.groups()\<close> is a tuple of that
  length, truthy when it is not empty.
\<close>

primrec ngroups :: "regex \<Rightarrow> nat" where
  "ngroups (Atom a) = 0"
| "ngroups Eps = 0"
| "ngroups (Seq r1 r2) = ngroups r1 + ngroups r2"
| "ngroups (Alt r1 r2) = ngroups r1 + ngroups r2"
| "ngroups (Star r) = ngroups r"
| "ngroups (Plus r) = ngroups r"
| "ngroups (Opt r) = ngroups r"
| "ngroups (Group n r) = 1 + ngroups r"
| "ngroups WordB = 0"

subsection \<open>The six rule families\<close>

text \<open>
  The dictionaries built by the rule families hold the keys \<^verbatim>\<open>type\<close>,
  \<^verbatim>\<open>content\<close>, \<^verbatim>\<open>key\<close>, \<^verbatim>\<open>value\<close>, \<^verbatim>\<open>confidence\<close> and
  \<^verbatim>\<open>raw_text\<close>; the other fields are set by \<^verbatim>\<open>extract_memories\<close>. The
  \<^verbatim>\<open>turn_number\<close> argument of the families is not used by the code.
\<close>

definition calculate_confidence :: "string \<Rightarrow> regex \<Rightarrow> real" where
  "calculate_confidence text pattern =
     (let base_confidence = 0.8;
          base_confidence = (if length text < 5 then base_confidence - 0.2 else base_confidence);
          base_confidence =
            (if re_search True (alt [str ''language'', str ''prefer'', str ''favorite'']) text \<noteq> None
             then base_confidence + 0.1 else base_confidence)
      in min 0.99 (max 0.5 base_confidence))"

definition parse_preference :: "string \<Rightarrow> string \<times> string option" where
  "parse_preference text =
     (case re_search True (cat [str ''language'', ws1, str ''is'', ws1, Group 1 (Plus (Atom Wrd))]) text of
        Some m \<Rightarrow> (''language'', group1 m)
      | None \<Rightarrow>
     (case re_search True (cat [str ''prefer'', Opt (ch CHR ''s''), ws1, Group 1 any1]) text of
        Some m \<Rightarrow> (''preference'', group1 m)
      | None \<Rightarrow>
     (case re_search True (cat [str ''favorite'', ws1, Group 1 any1]) text of
        Some m \<Rightarrow> (''favorite'', group1 m)
      | None \<Rightarrow>
     (case re_search True (cat [str ''call me'', ws1, Group 1 any1]) text of
        Some m \<Rightarrow> (''name'', group1 m)
      | None \<Rightarrow> (''general'', Some text)))))"

definition extract_constraint_key :: "string \<Rightarrow> string" where
  "extract_constraint_key text =
     (if re_search True (alt [str ''time'', str ''am'', str ''pm'',
                              cat [Plus (Atom Dig), ch CHR '':'', Plus (Atom Dig)]]) text \<noteq> None
      then ''time_constraint''
      else if re_search True (alt [str ''not available'', str ''busy'']) text \<noteq> None
      then ''availability''
      else ''general_constraint'')"

definition new_memory ::
  "string \<Rightarrow> string \<Rightarrow> string \<Rightarrow> string option \<Rightarrow> real \<Rightarrow> string \<Rightarrow> memory" where
  "new_memory t c k v conf text =
     \<lparr>mem_id = None, session_id = None, mem_type = Some t, content = Some c, key = Some k,
      mem_value = v, confidence = Some conf, source_turn = None, created_at = None,
      last_accessed = None, access_count = None, raw_text = Some text\<rparr>"

definition group1_or_content :: "regex \<Rightarrow> re_match \<Rightarrow> string option" where
  "group1_or_content pattern m = (if ngroups pattern > 0 then group1 m else Some (group0 m))"

definition extract_preferences :: "string \<Rightarrow> int \<Rightarrow> memory list" where
  "extract_preferences text turn_number =
     concat (map (\<lambda>pattern.
        map (\<lambda>m. let c = group0 m; kv = parse_preference c in
               new_memory ''preference'' c (fst kv) (snd kv) (calculate_confidence c pattern) text)
          (finditer True pattern text))
       preference_patterns)"

definition extract_constraints :: "string \<Rightarrow> int \<Rightarrow> memory list" where
  "extract_constraints text turn_number =
     concat (map (\<lambda>pattern.
        map (\<lambda>m. let c = group0 m in
               new_memory ''constraint'' c (extract_constraint_key c)
                 (group1_or_content pattern m) (calculate_confidence c pattern) text)
          (finditer True pattern text))
       constraint_patterns)"

definition extract_commitments :: "string \<Rightarrow> int \<Rightarrow> memory list" where
  "extract_commitments text turn_number =
     concat (map (\<lambda>pattern.
        map (\<lambda>m. let c = group0 m in
               new_memory ''commitment'' c ''scheduled_action''
                 (group1_or_content pattern m) (calculate_confidence c pattern) text)
          (finditer True pattern text))
       commitment_patterns)"

definition extract_instructions :: "string \<Rightarrow> int \<Rightarrow> memory list" where
  "extract_instructions text turn_number =
     concat (map (\<lambda>pattern.
        map (\<lambda>m. let c = group0 m in
               new_memory ''instruction'' c ''instruction''
                 (group1_or_content pattern m) (calculate_confidence c pattern) text)
          (finditer True pattern text))
       instruction_patterns)"

definition extract_entities :: "string \<Rightarrow> int \<Rightarrow> memory list" where
  "extract_entities text turn_number =
     concat (map (\<lambda>m. case group1 m of
                         None \<Rightarrow> []
                       | Some entity \<Rightarrow>
                           if py_lower entity \<notin> set [''i'', ''my'', ''the'', ''a'', ''an'']
                           then [new_memory ''entity'' entity ''entity_name'' (Some entity) 0.7 text]
                           else [])
               (finditer False entity_pattern text))"

definition extract_facts :: "string \<Rightarrow> int \<Rightarrow> memory list" where
  "extract_facts text turn_number =
     concat (map (\<lambda>pattern.
        concat (map (\<lambda>m. let c = group0 m in
                  if length c > 10 \<and> length (py_split c) > 2
                  then [new_memory ''fact'' c ''fact'' (Some c) 0.6 text] else [])
          (finditer True pattern text)))
       fact_patterns)"

text \<open>
  \<^verbatim>\<open>extract_memories\<close> runs the six families on \<^verbatim>\<open>user_message\<close> and stamps every
  memory with the session, the turn and a clock reading of its own
  (\<^verbatim>\<open>datetime.utcnow().isoformat()\<close>, the \<open>n\<close>-th reading being \<open>clock n\<close>).
\<close>

fun stamp :: "(nat \<Rightarrow> string) \<Rightarrow> nat \<Rightarrow> string \<Rightarrow> int \<Rightarrow> memory list \<Rightarrow> memory list" where
  "stamp clock n sid turn_number [] = []"
| "stamp clock n sid turn_number (m # ms) =
     m\<lparr>session_id := Some sid, source_turn := Some turn_number, created_at := Some (clock n),
       last_accessed := None, access_count := Some 0\<rparr>
     # stamp clock (Suc n) sid turn_number ms"

definition extract_memories ::
  "(nat \<Rightarrow> string) \<Rightarrow> string \<Rightarrow> string \<Rightarrow> int \<Rightarrow> string \<Rightarrow> memory list" where
  "extract_memories clock user_message assistant_response turn_number sid =
     stamp clock 0 sid turn_number
       (extract_preferences user_message turn_number @
        extract_constraints user_message turn_number @
        extract_commitments user_message turn_number @
        extract_instructions user_message turn_number @
        extract_entities user_message turn_number @
        extract_facts user_message turn_number)"

text \<open>
  \<^verbatim>\<open>filter_memories\<close> compares each confidence with the threshold; comparing
  \<^verbatim>\<open>None\<close> raises \<^verbatim>\<open>TypeError\<close>.
\<close>

definition filter_memories :: "memory list \<Rightarrow> real \<Rightarrow> py_error + memory list" where
  "filter_memories ms min_confidence =
     (if list_ex (\<lambda>m. confidence m = None) ms then Inl TypeError
      else Inr (filter (\<lambda>m. case confidence m of None \<Rightarrow> False | Some c \<Rightarrow> min_confidence \<le> c) ms))"

section \<open>Properties of the store\<close>

lemma mem_id_touch: "mem_id (touch now r) = mem_id r"
  by (simp add: touch_def)

lemma update_memory_access_Inr:
  "update_memory_access st now i = Inr st' \<longleftrightarrow>
     int64 i \<and>
     st' = st\<lparr>memories := map (\<lambda>r. if mem_id r = Some i then touch now r else r) (memories st)\<rparr>"
  by (auto simp: update_memory_access_def)

lemma update_memory_access_returns:
  "int64 i \<Longrightarrow> \<exists>st'. update_memory_access st now i = Inr st'"
  by (simp add: update_memory_access_def)

lemma get_memory_update_memory_access:
  assumes "update_memory_access st now i = Inr st'"
  shows "get_memory st' j =
     (if j = i then map_option (touch now) (get_memory st i) else get_memory st j)"
proof -
  have "find (\<lambda>r. mem_id r = Some j) (map (\<lambda>r. if mem_id r = Some i then touch now r else r) rs) =
        (if j = i then map_option (touch now) (find (\<lambda>r. mem_id r = Some i) rs)
         else find (\<lambda>r. mem_id r = Some j) rs)" for rs
    by (induction rs) (auto simp: mem_id_touch)
  then show ?thesis
    using assms by (simp add: get_memory_def update_memory_access_Inr)
qed

lemma fold_max_ge: "a \<le> fold max xs (a::int)"
  by (induction xs arbitrary: a) (auto intro: order_trans [OF max.cobounded2])

lemma fold_max_mem: "x \<in> set xs \<Longrightarrow> x \<le> fold max xs (a::int)"
proof (induction xs arbitrary: a)
  case Nil
  then show ?case by simp
next
  case (Cons y ys)
  show ?case
  proof (cases "x = y")
    case True
    have "y \<le> max y a" by simp
    also have "\<dots> \<le> fold max ys (max y a)" by (rule fold_max_ge)
    finally show ?thesis using True by simp
  next
    case False
    with Cons show ?thesis by simp
  qed
qed

lemma next_rowid_fresh: "next_rowid st \<notin> set (row_ids (memories st))"
proof
  assume "next_rowid st \<in> set (row_ids (memories st))"
  then have "next_rowid st \<le> fold max (row_ids (memories st)) (seq st)"
    by (rule fold_max_mem)
  then show False by (simp add: next_rowid_def)
qed

lemma next_rowid_gt_seq: "seq st < next_rowid st"
  using fold_max_ge [of "seq st" "row_ids (memories st)"] by (simp add: next_rowid_def)

text \<open>
  A record all of whose constrained columns are present and equal to those of a stored row
  is refused: the table is left as it was and the sentinel \<open>-1\<close> is returned.
\<close>

lemma store_memory_duplicate:
  assumes "r \<in> set (memories st)"
    and "session_id r = session_id m" and "mem_type r = mem_type m" and "key r = key m"
    and "mem_value r = mem_value m" and "source_turn r = source_turn m"
    and "session_id m \<noteq> None" and "mem_type m \<noteq> None" and "key m \<noteq> None"
    and "mem_value m \<noteq> None" and "source_turn m \<noteq> None"
  shows "store_memory st m = (- 1, st)"
proof -
  have "unique_conflict r m"
    using assms by (auto simp: unique_conflict_def sql_eq_def)
  with assms(1) have "\<not> list_all (\<lambda>r. \<not> unique_conflict r m) (memories st)"
    by (auto simp: list_all_iff)
  then show ?thesis by (simp add: store_memory_def)
qed

text \<open>
  A record that passes the constraints gets an id that no stored row has and that exceeds
  every id assigned before; on a store whose counter is not negative it differs from \<open>-1\<close>.
\<close>

lemma store_memory_fresh:
  assumes "not_null_ok m" and "list_all (\<lambda>r. \<not> unique_conflict r m) (memories st)"
  shows "store_memory st m =
           (next_rowid st,
            st\<lparr>memories := memories st @ [m\<lparr>mem_id := Some (next_rowid st)\<rparr>],
               seq := next_rowid st,
               memory_id_map := (if vector_search_enabled st
                                 then memory_id_map st @ [next_rowid st]
                                 else memory_id_map st)\<rparr>)"
    and "next_rowid st \<notin> set (row_ids (memories st))"
    and "seq st < next_rowid st"
  using assms by (simp_all add: store_memory_def Let_def next_rowid_fresh next_rowid_gt_seq)

lemma map_if_id: "list_all (\<lambda>r. \<not> P r) rs \<Longrightarrow> map (\<lambda>r. if P r then f r else r) rs = rs"
  by (induction rs) auto

lemma find_None_list_all: "find P rs = None \<longleftrightarrow> list_all (\<lambda>r. \<not> P r) rs"
  by (induction rs) auto

lemma update_memory_access_absent:
  "update_memory_access st now i = Inr st' \<Longrightarrow> get_memory st i = None \<Longrightarrow> st' = st"
  by (simp add: get_memory_def update_memory_access_Inr find_None_list_all map_if_id)

lemma access_count_touch:
  "access_count r = Some c \<Longrightarrow> c < 9223372036854775807 \<Longrightarrow>
   access_count (touch now r) = Some (c + 1)"
  by (simp add: touch_def sql_add_one_def)

lemma update_memory_access_repeat:
  "int64 i \<Longrightarrow> get_memory st i = Some r \<Longrightarrow> access_count r = Some n \<Longrightarrow>
   n + int (length ts) \<le> 9223372036854775807 \<Longrightarrow>
   \<exists>st' r'. update_memory_access_times st ts i = Inr st' \<and> get_memory st' i = Some r' \<and>
        access_count r' = Some (n + int (length ts)) \<and>
        (ts \<noteq> [] \<longrightarrow> last_accessed r' = Some (last ts))"
proof (induction ts arbitrary: st r n)
  case Nil
  then show ?case by simp
next
  case (Cons t ts)
  from update_memory_access_returns [OF Cons.prems(1)]
  obtain st1 where st1: "update_memory_access st t i = Inr st1" by blast
  have g: "get_memory st1 i = Some (touch t r)"
    using Cons.prems(2) by (simp add: get_memory_update_memory_access [OF st1])
  have c: "access_count (touch t r) = Some (n + 1)"
    using Cons.prems(3,4) by (simp add: access_count_touch)
  have b: "n + 1 + int (length ts) \<le> 9223372036854775807"
    using Cons.prems(4) by simp
  from Cons.IH [OF Cons.prems(1) g c b] obtain st' r' where
    r': "update_memory_access_times st1 ts i = Inr st'" "get_memory st' i = Some r'"
      "access_count r' = Some (n + 1 + int (length ts))"
      "ts \<noteq> [] \<longrightarrow> last_accessed r' = Some (last ts)"
    by blast
  show ?case
  proof (cases "ts = []")
    case True
    with g c st1 show ?thesis by (simp add: touch_def)
  next
    case False
    with r' st1 show ?thesis by simp
  qed
qed

text \<open>
  On a store whose counter is not negative, as every store built from the empty one is, an
  assigned id is positive, hence not the sentinel; the counter never decreases. A record
  with a NULL \<open>value\<close> is never refused as a duplicate.
\<close>

lemma store_memory_result:
  assumes "0 \<le> seq st"
  shows "(fst (store_memory st m) = - 1 \<and> snd (store_memory st m) = st) \<or>
         (0 < fst (store_memory st m) \<and> seq (snd (store_memory st m)) = fst (store_memory st m))"
  using assms next_rowid_gt_seq [of st] by (simp add: store_memory_def Let_def)

lemma store_memory_seq_mono: "seq st \<le> seq (snd (store_memory st m))"
  using next_rowid_gt_seq [of st] by (simp add: store_memory_def Let_def)

lemma store_memory_null_value:
  assumes "not_null_ok m" and "mem_value m = None"
  shows "fst (store_memory st m) = next_rowid st"
proof -
  have "list_all (\<lambda>r. \<not> unique_conflict r m) (memories st)"
    using assms(2) by (simp add: list_all_iff unique_conflict_def sql_eq_def split: option.splits)
  with assms(1) show ?thesis by (simp add: store_memory_def Let_def)
qed

text \<open>
  Claim C6, as amended. For an id in the 64-bit range \<^verbatim>\<open>update_memory_access\<close>
  returns. On the id of a stored row it sets \<open>last_accessed\<close> to the clock reading,
  adds exactly one to an \<open>access_count\<close> that is an integer below the largest 64-bit
  integer, and changes no other field of the row; every other row, the number of rows, the
  id counter, the flag and the id map stay as they were. Called once per clock reading of a
  list \<open>ts\<close> of at most \<open>2 ^ 63 - 1\<close> readings on a row whose count is 0, it leaves
  the count at \<open>length ts\<close> and, when \<open>ts\<close> is not empty, the last reading in
  \<open>last_accessed\<close>. On an id that no row has, it returns the store unchanged.
\<close>

theorem update_memory_access_frame:
  assumes "int64 i"
  shows "\<exists>st'. update_memory_access st now i = Inr st' \<and>
   (\<forall>r. get_memory st i = Some r \<longrightarrow>
       (\<exists>r'. get_memory st' i = Some r' \<and>
          last_accessed r' = Some now \<and>
          (\<forall>c. access_count r = Some c \<and> c < 9223372036854775807 \<longrightarrow>
               access_count r' = Some (c + 1)) \<and>
          access_count r' = map_option sql_add_one (access_count r) \<and>
          mem_id r' = mem_id r \<and> session_id r' = session_id r \<and>
          mem_type r' = mem_type r \<and> content r' = content r \<and> key r' = key r \<and>
          mem_value r' = mem_value r \<and> confidence r' = confidence r \<and>
          source_turn r' = source_turn r \<and> created_at r' = created_at r \<and>
          raw_text r' = raw_text r)) \<and>
   (\<forall>j. j \<noteq> i \<longrightarrow> get_memory st' j = get_memory st j) \<and>
   length (memories st') = length (memories st) \<and>
   (\<forall>k < length (memories st). mem_id (memories st ! k) \<noteq> Some i \<longrightarrow>
        memories st' ! k = memories st ! k) \<and>
   seq st' = seq st \<and>
   vector_search_enabled st' = vector_search_enabled st \<and>
   memory_id_map st' = memory_id_map st \<and>
   (\<forall>r ts. get_memory st i = Some r \<and> access_count r = Some 0 \<and>
            int (length ts) \<le> 9223372036854775807 \<longrightarrow>
       (\<exists>st'' r'. update_memory_access_times st ts i = Inr st'' \<and>
             get_memory st'' i = Some r' \<and>
             access_count r' = Some (int (length ts)) \<and>
             (ts \<noteq> [] \<longrightarrow> last_accessed r' = Some (last ts)))) \<and>
   (get_memory st i = None \<longrightarrow> st' = st)"
proof -
  from update_memory_access_returns [OF assms]
  obtain st' where st': "update_memory_access st now i = Inr st'" by blast
  then have rows: "st' = st\<lparr>memories :=
      map (\<lambda>r. if mem_id r = Some i then touch now r else r) (memories st)\<rparr>"
    by (simp add: update_memory_access_Inr)
  have 1: "\<exists>r'. get_memory st' i = Some r' \<and>
          last_accessed r' = Some now \<and>
          (\<forall>c. access_count r = Some c \<and> c < 9223372036854775807 \<longrightarrow>
               access_count r' = Some (c + 1)) \<and>
          access_count r' = map_option sql_add_one (access_count r) \<and>
          mem_id r' = mem_id r \<and> session_id r' = session_id r \<and>
          mem_type r' = mem_type r \<and> content r' = content r \<and> key r' = key r \<and>
          mem_value r' = mem_value r \<and> confidence r' = confidence r \<and>
          source_turn r' = source_turn r \<and> created_at r' = created_at r \<and>
          raw_text r' = raw_text r"
    if "get_memory st i = Some r" for r
  proof -
    from that have "get_memory st' i = Some (touch now r)"
      by (simp add: get_memory_update_memory_access [OF st'])
    moreover have "\<forall>c. access_count r = Some c \<and> c < 9223372036854775807 \<longrightarrow>
               access_count (touch now r) = Some (c + 1)"
      by (simp add: access_count_touch)
    ultimately show ?thesis
      by (simp add: touch_def)
  qed
  have 2: "get_memory st' j = get_memory st j" if "j \<noteq> i" for j
    using that by (simp add: get_memory_update_memory_access [OF st'])
  have 3: "length (memories st') = length (memories st)"
    by (simp add: rows)
  have 4: "memories st' ! k = memories st ! k"
    if "k < length (memories st)" "mem_id (memories st ! k) \<noteq> Some i" for k
    using that by (simp add: rows)
  have 5: "seq st' = seq st" "vector_search_enabled st' = vector_search_enabled st"
    "memory_id_map st' = memory_id_map st"
    by (simp_all add: rows)
  have 6: "\<exists>st'' r'. update_memory_access_times st ts i = Inr st'' \<and>
             get_memory st'' i = Some r' \<and>
             access_count r' = Some (int (length ts)) \<and>
             (ts \<noteq> [] \<longrightarrow> last_accessed r' = Some (last ts))"
    if "get_memory st i = Some r \<and> access_count r = Some 0 \<and>
        int (length ts) \<le> 9223372036854775807" for r ts
    using that update_memory_access_repeat [OF assms, of st r 0 ts] by simp
  have 7: "st' = st" if "get_memory st i = None"
    using st' that by (rule update_memory_access_absent)
  show ?thesis
  proof (rule exI [of _ st'], intro conjI allI impI)
    show "update_memory_access st now i = Inr st'" by (rule st')
  next
    fix r assume "get_memory st i = Some r"
    then show "\<exists>r'. get_memory st' i = Some r' \<and>
          last_accessed r' = Some now \<and>
          (\<forall>c. access_count r = Some c \<and> c < 9223372036854775807 \<longrightarrow>
               access_count r' = Some (c + 1)) \<and>
          access_count r' = map_option sql_add_one (access_count r) \<and>
          mem_id r' = mem_id r \<and> session_id r' = session_id r \<and>
          mem_type r' = mem_type r \<and> content r' = content r \<and> key r' = key r \<and>
          mem_value r' = mem_value r \<and> confidence r' = confidence r \<and>
          source_turn r' = source_turn r \<and> created_at r' = created_at r \<and>
          raw_text r' = raw_text r"
      by (rule 1)
  next
    fix j assume "j \<noteq> i"
    then show "get_memory st' j = get_memory st j" by (rule 2)
  next
    show "length (memories st') = length (memories st)" by (rule 3)
  next
    fix k assume "k < length (memories st)" "mem_id (memories st ! k) \<noteq> Some i"
    then show "memories st' ! k = memories st ! k" by (rule 4)
  next
    show "seq st' = seq st" by (rule 5)
  next
    show "vector_search_enabled st' = vector_search_enabled st" by (rule 5)
  next
    show "memory_id_map st' = memory_id_map st" by (rule 5)
  next
    fix r and ts :: "string list"
    assume "get_memory st i = Some r \<and> access_count r = Some 0 \<and>
            int (length ts) \<le> 9223372036854775807"
    then show "\<exists>st'' r'. update_memory_access_times st ts i = Inr st'' \<and>
             get_memory st'' i = Some r' \<and>
             access_count r' = Some (int (length ts)) \<and>
             (ts \<noteq> [] \<longrightarrow> last_accessed r' = Some (last ts))"
      by (rule 6)
  next
    assume "get_memory st i = None"
    then show "st' = st" by (rule 7)
  qed
qed

lemma store_test: "store_memory empty_storage test_memory = (1, \<lparr>memories = [test_memory\<lparr>mem_id := Some 1\<rparr>], seq = 1, vector_search_enabled = False, memory_id_map = []\<rparr>)"
  by (simp add: store_memory_def empty_storage_def not_null_ok_def test_memory_def next_rowid_def row_ids_def)

theorem update_memory_access_frame_witness:
  "int64 1 \<and> int64 2 \<and>
   get_memory (snd (store_memory empty_storage test_memory)) 1 = Some (test_memory\<lparr>mem_id := Some 1\<rparr>) \<and>
   access_count (test_memory\<lparr>mem_id := Some 1\<rparr>) = Some 0 \<and>
   (\<exists>st' r'. update_memory_access (snd (store_memory empty_storage test_memory)) ''2024-01-02T00:00:00'' 1 = Inr st' \<and>
      get_memory st' 1 = Some r' \<and>
      last_accessed r' = Some ''2024-01-02T00:00:00'' \<and> access_count r' = Some 1) \<and>
   (\<exists>st' r'. update_memory_access_times (snd (store_memory empty_storage test_memory))
        [''2024-01-02T00:00:00'', ''2024-01-03T00:00:00'', ''2024-01-04T00:00:00''] 1 = Inr st' \<and>
      get_memory st' 1 = Some r' \<and>
      last_accessed r' = Some ''2024-01-04T00:00:00'' \<and> access_count r' = Some 3) \<and>
   get_memory (snd (store_memory empty_storage test_memory)) 2 = None \<and>
   update_memory_access (snd (store_memory empty_storage test_memory)) ''2024-01-02T00:00:00'' 2 =
     Inr (snd (store_memory empty_storage test_memory))"
proof -
  let ?st = "snd (store_memory empty_storage test_memory)"
  let ?ts = "[''2024-01-02T00:00:00'', ''2024-01-03T00:00:00'', ''2024-01-04T00:00:00'']"
  have i: "int64 1" "int64 2" by (simp_all add: int64_def)
  have g: "get_memory ?st 1 = Some (test_memory\<lparr>mem_id := Some 1\<rparr>)"
    by (simp add: store_test get_memory_def)
  have c: "access_count (test_memory\<lparr>mem_id := Some 1\<rparr>) = Some 0"
    by (simp add: test_memory_def)
  have n: "get_memory ?st 2 = None"
    by (simp add: store_test get_memory_def)
  have l: "int (length ?ts) \<le> 9223372036854775807" "?ts \<noteq> []" "last ?ts = ''2024-01-04T00:00:00''"
    "int (length ?ts) = 3"
    by simp_all
  note t1 = update_memory_access_frame [OF i(1), of ?st "''2024-01-02T00:00:00''"]
  note t2 = update_memory_access_frame [OF i(2), of ?st "''2024-01-02T00:00:00''"]
  from t1 g c have a: "\<exists>st' r'. update_memory_access ?st ''2024-01-02T00:00:00'' 1 = Inr st' \<and>
      get_memory st' 1 = Some r' \<and>
      last_accessed r' = Some ''2024-01-02T00:00:00'' \<and> access_count r' = Some 1"
    by fastforce
  from t1 g c l(1) have "\<exists>st'' r'. update_memory_access_times ?st ?ts 1 = Inr st'' \<and>
      get_memory st'' 1 = Some r' \<and> access_count r' = Some (int (length ?ts)) \<and>
      (?ts \<noteq> [] \<longrightarrow> last_accessed r' = Some (last ?ts))"
    by blast
  then have b: "\<exists>st' r'. update_memory_access_times ?st ?ts 1 = Inr st' \<and>
      get_memory st' 1 = Some r' \<and>
      last_accessed r' = Some ''2024-01-04T00:00:00'' \<and> access_count r' = Some 3"
    unfolding l(3,4) using l(2) by blast
  from t2 n have d: "update_memory_access ?st ''2024-01-02T00:00:00'' 2 = Inr ?st"
    by auto
  from i g c a b n d show ?thesis by blast
qed

text \<open>
  Claim C6 as stated fails on two stored rows. A row whose \<open>access_count\<close> is NULL keeps
  the NULL: nothing is added. A row whose count is the largest 64-bit integer holds the
  number \<open>2 ^ 63\<close> after one call and still after the second: the second call adds
  nothing.
\<close>

theorem update_memory_access_count_counterexample:
  "(\<exists>st'. update_memory_access
            (snd (store_memory empty_storage (test_memory\<lparr>access_count := None\<rparr>)))
            ''2024-01-02T00:00:00'' 1 = Inr st' \<and>
          map_option access_count (get_memory st' 1) = Some None) \<and>
   (\<exists>st1 st2.
      update_memory_access
        (snd (store_memory empty_storage (test_memory\<lparr>access_count := Some 9223372036854775807\<rparr>)))
        ''2024-01-02T00:00:00'' 1 = Inr st1 \<and>
      map_option access_count (get_memory st1 1) = Some (Some 9223372036854775808) \<and>
      update_memory_access st1 ''2024-01-03T00:00:00'' 1 = Inr st2 \<and>
      map_option access_count (get_memory st2 1) = Some (Some 9223372036854775808))"
  by (simp add: update_memory_access_def int64_def store_memory_def empty_storage_def
      not_null_ok_def test_memory_def next_rowid_def row_ids_def get_memory_def touch_def
      sql_add_one_def)

lemma store_null_value_once:
  "store_memory empty_storage null_value_memory =
     (1, \<lparr>memories = [null_value_memory\<lparr>mem_id := Some 1\<rparr>], seq = 1,
         vector_search_enabled = False, memory_id_map = []\<rparr>)"
  by (simp add: store_memory_def empty_storage_def not_null_ok_def null_value_memory_def
      next_rowid_def row_ids_def)

text \<open>
  Claim C1 at an input where the code departs from it. Storing the record
  \<open>null_value_memory\<close>, whose \<open>value\<close> is NULL, twice in a row: the second insert
  meets a row with the same \<open>(session_id, type, key, value, source_turn)\<close>, yet it is
  not refused. It returns the new id 2 instead of \<open>-1\<close>, and the table holds two rows
  for the tuple.
\<close>

theorem store_memory_null_value_twice:
  "store_memory (snd (store_memory empty_storage null_value_memory)) null_value_memory =
     (2, \<lparr>memories = [null_value_memory\<lparr>mem_id := Some 1\<rparr>,
                        null_value_memory\<lparr>mem_id := Some 2\<rparr>],
         seq = 2, vector_search_enabled = False, memory_id_map = []\<rparr>)"
  unfolding store_null_value_once snd_conv
  by (simp add: store_memory_def not_null_ok_def unique_conflict_def sql_eq_def
      null_value_memory_def next_rowid_def row_ids_def)

theorem store_memory_null_value_twice_witness:
  "fst (store_memory (snd (store_memory empty_storage null_value_memory)) null_value_memory) \<noteq> - 1 \<and>
   length (memories (snd (store_memory (snd (store_memory empty_storage null_value_memory))
      null_value_memory))) = 2"
  using store_memory_null_value_twice by simp

lemma non_null_Nil: "non_null [] = []"
  by (simp add: non_null_def)

lemma sql_min_Min:
  "sql_min xs = (if non_null xs = [] then None else Some (Min (set (non_null xs))))"
proof (cases "non_null xs")
  case Nil
  then show ?thesis by (simp add: sql_min_def)
next
  case (Cons v vs)
  have "fold min vs v = Min (set (v # vs))" by (rule Min.set_eq_fold [symmetric])
  with Cons show ?thesis by (simp add: sql_min_def)
qed

lemma sql_max_Max:
  "sql_max xs = (if non_null xs = [] then None else Some (Max (set (non_null xs))))"
proof (cases "non_null xs")
  case Nil
  then show ?thesis by (simp add: sql_max_def)
next
  case (Cons v vs)
  have "fold max vs v = Max (set (v # vs))" by (rule Max.set_eq_fold [symmetric])
  with Cons show ?thesis by (simp add: sql_max_def)
qed

text \<open>
  Claim C8, as amended. For no session (\<open>None\<close>) or a non-empty session id,
  \<^verbatim>\<open>get_memory_stats\<close> aggregates over all rows, respectively over exactly the rows of
  that session: \<open>total_memories\<close> is their number, \<open>avg_confidence\<close> the mean of their
  non-NULL confidences, \<open>earliest_turn\<close> and \<open>latest_turn\<close> the least and greatest of
  their non-NULL turns, each of the three NULL when there is no such value. When no row
  matches, the total is 0, not NULL, and the other three fields are NULL.
\<close>

theorem get_memory_stats_aggregates:
  assumes "sid = None \<or> truthy sid"
  shows "let rows = filter (\<lambda>r. sid = None \<or> session_id r = sid) (memories st);
             confs = non_null (map confidence rows);
             turns = non_null (map source_turn rows);
             s = get_memory_stats st sid
         in total_memories s = Some (int (length rows)) \<and>
            avg_confidence s =
              (if confs = [] then None else Some (sum_list confs / real (length confs))) \<and>
            earliest_turn s = (if turns = [] then None else Some (Min (set turns))) \<and>
            latest_turn s = (if turns = [] then None else Some (Max (set turns))) \<and>
            (rows = [] \<longrightarrow>
               s = \<lparr>total_memories = Some 0, avg_confidence = None,
                    earliest_turn = None, latest_turn = None\<rparr>)"
proof -
  have rows: "(if truthy sid then filter (\<lambda>r. session_id r = sid) (memories st) else memories st) =
        filter (\<lambda>r. sid = None \<or> session_id r = sid) (memories st)"
    using assms by (cases sid) (auto simp: truthy_def)
  show ?thesis
    unfolding get_memory_stats_def rows Let_def
    by (simp add: sql_avg_def sql_min_Min sql_max_Max non_null_Nil Let_def)
qed

theorem get_memory_stats_aggregates_witness:
  "truthy (Some ''test_session'') \<and>
   total_memories (get_memory_stats (snd (store_memory empty_storage test_memory))
      (Some ''test_session'')) = Some 1 \<and>
   avg_confidence (get_memory_stats (snd (store_memory empty_storage test_memory))
      (Some ''test_session'')) = Some 0.8 \<and>
   earliest_turn (get_memory_stats (snd (store_memory empty_storage test_memory))
      (Some ''test_session'')) = Some 1 \<and>
   latest_turn (get_memory_stats (snd (store_memory empty_storage test_memory))
      (Some ''test_session'')) = Some 1"
proof -
  have h: "Some ''test_session'' = None \<or> truthy (Some ''test_session'')"
    by (simp add: truthy_def)
  show ?thesis
    using get_memory_stats_aggregates [OF h, of "snd (store_memory empty_storage test_memory)"] h
    unfolding store_test snd_conv
    by (simp add: Let_def non_null_def test_memory_def)
qed

text \<open>
  Claim C8 as stated fails on the empty table: \<^verbatim>\<open>COUNT(*)\<close> is 0 there, so
  \<open>total_memories\<close> is not absent.
\<close>

theorem get_memory_stats_empty_counterexample:
  "\<not> (total_memories (get_memory_stats empty_storage (Some ''s1'')) = None \<and>
      avg_confidence (get_memory_stats empty_storage (Some ''s1'')) = None \<and>
      earliest_turn (get_memory_stats empty_storage (Some ''s1'')) = None \<and>
      latest_turn (get_memory_stats empty_storage (Some ''s1'')) = None)"
  by (simp add: get_memory_stats_def empty_storage_def)

text \<open>
  The empty session id is falsy in \<^verbatim>\<open>if session_id:\<close> and is treated as no session.
\<close>

lemma get_memory_stats_empty_session:
  "get_memory_stats st (Some []) = get_memory_stats st None"
  by (simp add: get_memory_stats_def truthy_def)

section \<open>Properties of deduplicate_memories\<close>

lemma is_first_0: "is_first seen (m # ms) 0 \<longleftrightarrow> fingerprint m \<notin> seen"
  by (simp add: is_first_def)

lemma is_first_Suc:
  "is_first seen (m # ms) (Suc i) \<longleftrightarrow> is_first (insert (fingerprint m) seen) ms i"
proof -
  have "(\<forall>j<Suc i. P j) \<longleftrightarrow> P 0 \<and> (\<forall>j<i. P (Suc j))" for P :: "nat \<Rightarrow> bool"
    by (metis less_Suc_eq_0_disj)
  then show ?thesis
    by (auto simp: is_first_def)
qed

lemma upt_length_Cons: "[0..<length (m # ms)] = 0 # map Suc [0..<length ms]"
  by (simp add: upt_conv_Cons map_Suc_upt del: upt_Suc)

lemma dedup_loop_index:
  "dedup_loop seen acc ms = acc @ map (\<lambda>i. ms ! i) (filter (is_first seen ms) [0..<length ms])"
proof (induction ms arbitrary: seen acc)
  case Nil
  then show ?case by simp
next
  case (Cons m ms)
  have f: "filter (is_first seen (m # ms)) (map Suc [0..<length ms]) =
           map Suc (filter (is_first (insert (fingerprint m) seen) ms) [0..<length ms])"
    by (simp add: filter_map o_def is_first_Suc)
  have n: "map (\<lambda>i. (m # ms) ! i) (map Suc is) = map (\<lambda>i. ms ! i) is" for "is"
    by simp
  show ?case
  proof (cases "fingerprint m \<in> seen")
    case True
    then have "insert (fingerprint m) seen = seen" by auto
    with True show ?thesis
      unfolding upt_length_Cons by (simp add: Cons.IH f n is_first_0 del: map_map)
  next
    case False
    then show ?thesis
      unfolding upt_length_Cons by (simp add: Cons.IH f n is_first_0 del: map_map)
  qed
qed

lemma deduplicate_index:
  "deduplicate_memories ms = map (\<lambda>i. ms ! i) (filter (is_first {} ms) [0..<length ms])"
  by (simp add: deduplicate_memories_def dedup_loop_index)

lemma count_complement:
  "length (filter P [0..<n]) + card {i. i < n \<and> \<not> P i} = n"
proof -
  have "length (filter P [0..<n]) = card (set (filter P [0..<n]))"
    by (rule distinct_card [symmetric]) simp
  also have "set (filter P [0..<n]) = {i. i < n \<and> P i}" by auto
  finally have "length (filter P [0..<n]) = card {i. i < n \<and> P i}" .
  moreover have "card {i. i < n \<and> P i} + card {i. i < n \<and> \<not> P i} = card ({i. i < n \<and> P i} \<union> {i. i < n \<and> \<not> P i})"
    by (rule card_Un_disjoint [symmetric]) auto
  moreover have "{i. i < n \<and> P i} \<union> {i. i < n \<and> \<not> P i} = {..<n}" by auto
  ultimately show ?thesis by simp
qed

lemma deduplicate_length:
  "length (deduplicate_memories ms) +
     card {i. i < length ms \<and> (\<exists>j<i. fingerprint (ms ! j) = fingerprint (ms ! i))} = length ms"
  using count_complement [of "is_first {} ms" "length ms"]
  by (simp add: deduplicate_index is_first_def)

lemma deduplicate_distinct: "distinct (map fingerprint (deduplicate_memories ms))"
proof -
  have "distinct (filter (is_first {} ms) [0..<length ms])" by simp
  moreover have "inj_on (\<lambda>i. fingerprint (ms ! i)) (set (filter (is_first {} ms) [0..<length ms]))"
  proof (rule inj_onI)
    fix i j
    assume "i \<in> set (filter (is_first {} ms) [0..<length ms])"
      "j \<in> set (filter (is_first {} ms) [0..<length ms])"
      "fingerprint (ms ! i) = fingerprint (ms ! j)"
    then show "i = j"
      by (auto simp: is_first_def) (metis linorder_neqE_nat)
  qed
  ultimately show ?thesis
    by (simp add: deduplicate_index distinct_map o_def)
qed

lemma dedup_loop_distinct_id:
  "distinct (map fingerprint ms) \<Longrightarrow> fingerprint ` set ms \<inter> seen = {} \<Longrightarrow>
   dedup_loop seen acc ms = acc @ ms"
  by (induction ms arbitrary: seen acc) auto

lemma deduplicate_idem:
  "deduplicate_memories (deduplicate_memories ms) = deduplicate_memories ms"
  using dedup_loop_distinct_id [OF deduplicate_distinct, of ms "{}" "[]"]
  by (simp add: deduplicate_memories_def)

lemma fingerprint_rendering:
  "fingerprint m =
     (case mem_type m of None \<Rightarrow> ''None'' | Some s \<Rightarrow> s) @ '':'' @
     (case key m of None \<Rightarrow> ''None'' | Some s \<Rightarrow> s) @ '':'' @
     (case mem_value m of None \<Rightarrow> ''None'' | Some s \<Rightarrow> s)"
  by (simp add: fingerprint_def py_str_def)

lemma fingerprint_value:
  assumes "mem_type a = mem_type b" and "key a = key b"
    and "mem_value a = Some s" and "mem_value b = Some t"
  shows "fingerprint a = fingerprint b \<longleftrightarrow> s = t"
  using assms by (simp add: fingerprint_def py_str_def)

text \<open>
  Claim C7. The fingerprint of a record is the text of its \<open>type\<close>, a colon, the text of
  its \<open>key\<close>, a colon, and the text of its \<open>value\<close>, where an absent field reads
  \<^verbatim>\<open>None\<close>; so two records with the same type and key and two different values have
  different fingerprints. \<^verbatim>\<open>deduplicate_memories\<close> returns, in input order, exactly
  the records at the positions whose fingerprint occurs at no earlier position. With \<open>n\<close>
  the length of the input and \<open>k\<close> the number of positions whose fingerprint occurs
  earlier, the result has \<open>n - k\<close> records (stated as \<open>length result + k = n\<close>), one
  per fingerprint of the input; its fingerprints are pairwise distinct, and a second
  application changes nothing.
\<close>

theorem deduplicate_memories_first_occurrences:
  "fingerprint =
     (\<lambda>m. (case mem_type m of None \<Rightarrow> ''None'' | Some s \<Rightarrow> s) @ '':'' @
          (case key m of None \<Rightarrow> ''None'' | Some s \<Rightarrow> s) @ '':'' @
          (case mem_value m of None \<Rightarrow> ''None'' | Some s \<Rightarrow> s)) \<and>
   (\<forall>a b s t. mem_type a = mem_type b \<and> key a = key b \<and>
        mem_value a = Some s \<and> mem_value b = Some t \<and> s \<noteq> t \<longrightarrow>
        fingerprint a \<noteq> fingerprint b) \<and>
   deduplicate_memories ms =
     map (\<lambda>i. ms ! i)
       (filter (\<lambda>i. \<forall>j<i. fingerprint (ms ! j) \<noteq> fingerprint (ms ! i)) [0..<length ms]) \<and>
   length (deduplicate_memories ms) +
     card {i. i < length ms \<and> (\<exists>j<i. fingerprint (ms ! j) = fingerprint (ms ! i))} = length ms \<and>
   length (deduplicate_memories ms) = card (fingerprint ` set ms) \<and>
   distinct (map fingerprint (deduplicate_memories ms)) \<and>
   deduplicate_memories (deduplicate_memories ms) = deduplicate_memories ms"
proof -
  have 0: "fingerprint =
     (\<lambda>m. (case mem_type m of None \<Rightarrow> ''None'' | Some s \<Rightarrow> s) @ '':'' @
          (case key m of None \<Rightarrow> ''None'' | Some s \<Rightarrow> s) @ '':'' @
          (case mem_value m of None \<Rightarrow> ''None'' | Some s \<Rightarrow> s))"
    by (rule ext) (rule fingerprint_rendering)
  have v: "\<forall>a b s t. mem_type a = mem_type b \<and> key a = key b \<and>
        mem_value a = Some s \<and> mem_value b = Some t \<and> s \<noteq> t \<longrightarrow>
        fingerprint a \<noteq> fingerprint b"
    using fingerprint_value by blast
  have 1: "deduplicate_memories ms =
     map (\<lambda>i. ms ! i)
       (filter (\<lambda>i. \<forall>j<i. fingerprint (ms ! j) \<noteq> fingerprint (ms ! i)) [0..<length ms])"
    using deduplicate_index [of ms] by (simp add: is_first_def [abs_def])
  have "fingerprint ` set (deduplicate_memories ms) = fingerprint ` set ms"
  proof
    show "fingerprint ` set (deduplicate_memories ms) \<subseteq> fingerprint ` set ms"
      by (auto simp: 1)
    show "fingerprint ` set ms \<subseteq> fingerprint ` set (deduplicate_memories ms)"
    proof
      fix f assume "f \<in> fingerprint ` set ms"
      then obtain k where k: "k < length ms" "fingerprint (ms ! k) = f"
        by (auto simp: in_set_conv_nth)
      define i where "i = (LEAST i. i < length ms \<and> fingerprint (ms ! i) = f)"
      have i: "i < length ms \<and> fingerprint (ms ! i) = f"
        unfolding i_def by (rule LeastI [of _ k]) (use k in simp)
      have "\<forall>j<i. fingerprint (ms ! j) \<noteq> fingerprint (ms ! i)"
      proof (intro allI impI)
        fix j assume "j < i"
        then have "\<not> (j < length ms \<and> fingerprint (ms ! j) = f)"
          unfolding i_def by (rule not_less_Least)
        with \<open>j < i\<close> i show "fingerprint (ms ! j) \<noteq> fingerprint (ms ! i)" by simp
      qed
      with i have "ms ! i \<in> set (deduplicate_memories ms)"
        by (subst 1) auto
      with i show "f \<in> fingerprint ` set (deduplicate_memories ms)" by force
    qed
  qed
  then have 3: "length (deduplicate_memories ms) = card (fingerprint ` set ms)"
    using distinct_card [OF deduplicate_distinct, of ms] by (simp add: image_set [symmetric] del: image_set)
  from 0 v 1 3 deduplicate_length [of ms] deduplicate_distinct [of ms] deduplicate_idem [of ms]
  show ?thesis by (intro conjI)
qed

text \<open>
  On the list of the test suite the second record, a copy of the first, is dropped. With a
  record added that differs from the first in its \<open>value\<close> only, that record is kept.
\<close>

theorem deduplicate_memories_first_occurrences_witness:
  "map fingerprint dedup_value_test =
     [''preference:language:Kannada'', ''preference:language:Kannada'',
      ''preference:language:Hindi'', ''preference:name:John''] \<and>
   fingerprint null_value_memory = ''commitment:scheduled_action:None'' \<and>
   deduplicate_memories dedup_test = [dedup_test ! 0, dedup_test ! 2] \<and>
   length (deduplicate_memories dedup_test) = 2 \<and>
   deduplicate_memories dedup_value_test =
     [dedup_value_test ! 0, dedup_value_test ! 2, dedup_value_test ! 3] \<and>
   length (deduplicate_memories dedup_value_test) = 3"
proof -
  note t = deduplicate_memories_first_occurrences
  have r: "fingerprint m =
     (case mem_type m of None \<Rightarrow> ''None'' | Some s \<Rightarrow> s) @ '':'' @
     (case key m of None \<Rightarrow> ''None'' | Some s \<Rightarrow> s) @ '':'' @
     (case mem_value m of None \<Rightarrow> ''None'' | Some s \<Rightarrow> s)" for m
    using t [of "[]"] by (elim conjE) (erule fun_cong)
  have f: "fingerprint (dedup_test ! 0) = ''preference:language:Kannada''"
    "fingerprint (dedup_test ! Suc 0) = ''preference:language:Kannada''"
    "fingerprint (dedup_test ! 2) = ''preference:name:John''"
    by (simp_all add: r dedup_test_def)
  have g: "fingerprint (dedup_value_test ! 0) = ''preference:language:Kannada''"
    "fingerprint (dedup_value_test ! Suc 0) = ''preference:language:Kannada''"
    "fingerprint (dedup_value_test ! 2) = ''preference:language:Hindi''"
    "fingerprint (dedup_value_test ! 3) = ''preference:name:John''"
    by (simp_all add: r dedup_value_test_def dedup_test_def)
  have n: "fingerprint null_value_memory = ''commitment:scheduled_action:None''"
    by (simp add: r null_value_memory_def)
  have l: "length dedup_test = 3" "length dedup_value_test = 4"
    by (simp_all add: dedup_test_def dedup_value_test_def)
  have u: "[0..<3] = [0, 1, 2]" "[0..<4] = [0, 1, 2, 3]" by (simp_all add: upt_rec)
  have a: "(\<forall>j<2. P j) \<longleftrightarrow> P 0 \<and> P (Suc 0)"
    "(\<forall>j<3. P j) \<longleftrightarrow> P 0 \<and> P (Suc 0) \<and> P 2" for P :: "nat \<Rightarrow> bool"
    by (auto simp: less_Suc_eq numeral_2_eq_2 numeral_3_eq_3)
  have m: "map fingerprint dedup_value_test =
     [fingerprint (dedup_value_test ! 0), fingerprint (dedup_value_test ! Suc 0),
      fingerprint (dedup_value_test ! 2), fingerprint (dedup_value_test ! 3)]"
    by (simp add: dedup_value_test_def)
  from t [of dedup_test]
  have "deduplicate_memories dedup_test =
     map (\<lambda>i. dedup_test ! i)
       (filter (\<lambda>i. \<forall>j<i. fingerprint (dedup_test ! j) \<noteq> fingerprint (dedup_test ! i)) [0..<length dedup_test])"
    by blast
  then have 1: "deduplicate_memories dedup_test = [dedup_test ! 0, dedup_test ! 2]"
    unfolding l u by (simp add: f a)
  from t [of dedup_value_test]
  have "deduplicate_memories dedup_value_test =
     map (\<lambda>i. dedup_value_test ! i)
       (filter (\<lambda>i. \<forall>j<i. fingerprint (dedup_value_test ! j) \<noteq> fingerprint (dedup_value_test ! i))
          [0..<length dedup_value_test])"
    by blast
  then have 2: "deduplicate_memories dedup_value_test =
     [dedup_value_test ! 0, dedup_value_test ! 2, dedup_value_test ! 3]"
    unfolding l u by (simp add: g a)
  show ?thesis
    unfolding m g by (simp add: 1 2 n)
qed

section \<open>Properties of the text search\<close>

lemma like_percent: "like ''%'' t"
  by (induction t) auto

lemma like_prefix:
  "CHR ''%'' \<notin> set q \<Longrightarrow> CHR ''_'' \<notin> set q \<Longrightarrow>
   like (q @ ''%'') t \<longleftrightarrow> prefix (map ascii_lower q) (map ascii_lower t)"
proof (induction q arbitrary: t)
  case Nil
  then show ?case by (simp add: like_percent)
next
  case (Cons p ps)
  then show ?case by (cases t) auto
qed

lemma like_percent_Cons: "like (CHR ''%'' # ps) t \<longleftrightarrow> (\<exists>k\<le>length t. like ps (drop k t))"
proof (induction t)
  case Nil
  then show ?case by (cases ps) auto
next
  case (Cons c t)
  have "(\<exists>k\<le>length (c # t). like ps (drop k (c # t))) \<longleftrightarrow>
        like ps (c # t) \<or> (\<exists>k\<le>length t. like ps (drop k t))"
  proof
    assume "\<exists>k\<le>length (c # t). like ps (drop k (c # t))"
    then obtain k where k: "k \<le> length (c # t)" "like ps (drop k (c # t))" by blast
    show "like ps (c # t) \<or> (\<exists>k\<le>length t. like ps (drop k t))"
    proof (cases k)
      case 0
      with k show ?thesis by simp
    next
      case (Suc k')
      with k show ?thesis by auto
    qed
  next
    assume "like ps (c # t) \<or> (\<exists>k\<le>length t. like ps (drop k t))"
    then show "\<exists>k\<le>length (c # t). like ps (drop k (c # t))"
    proof
      assume "like ps (c # t)"
      then have "like ps (drop 0 (c # t))" by simp
      then show ?thesis by blast
    next
      assume "\<exists>k\<le>length t. like ps (drop k t)"
      then obtain k where "k \<le> length t" "like ps (drop k t)" by blast
      then have "Suc k \<le> length (c # t)" "like ps (drop (Suc k) (c # t))" by simp_all
      then show ?thesis by blast
    qed
  qed
  with Cons show ?case by simp
qed

lemma like_substring:
  assumes "CHR ''%'' \<notin> set q" "CHR ''_'' \<notin> set q"
  shows "like (''%'' @ q @ ''%'') t \<longleftrightarrow> sublist (map ascii_lower q) (map ascii_lower t)"
proof -
  have "like (''%'' @ q @ ''%'') t \<longleftrightarrow>
        (\<exists>k\<le>length t. prefix (map ascii_lower q) (map ascii_lower (drop k t)))"
    using like_percent_Cons [of "q @ ''%''" t] by (simp add: like_prefix [OF assms])
  also have "\<dots> \<longleftrightarrow> (\<exists>ys. suffix ys (map ascii_lower t) \<and> prefix (map ascii_lower q) ys)"
  proof
    assume "\<exists>k\<le>length t. prefix (map ascii_lower q) (map ascii_lower (drop k t))"
    then obtain k where "prefix (map ascii_lower q) (map ascii_lower (drop k t))" by blast
    moreover have "suffix (map ascii_lower (drop k t)) (map ascii_lower t)"
      by (simp add: drop_map [symmetric] suffix_drop)
    ultimately show "\<exists>ys. suffix ys (map ascii_lower t) \<and> prefix (map ascii_lower q) ys"
      by blast
  next
    assume "\<exists>ys. suffix ys (map ascii_lower t) \<and> prefix (map ascii_lower q) ys"
    then obtain ys where ys: "suffix ys (map ascii_lower t)" "prefix (map ascii_lower q) ys"
      by blast
    from ys(1) obtain zs where zs: "map ascii_lower t = zs @ ys" by (auto simp: suffix_def)
    then have "ys = drop (length zs) (map ascii_lower t)" by simp
    then have "ys = map ascii_lower (drop (length zs) t)" by (simp add: drop_map)
    moreover have "length zs \<le> length t"
      using zs by (metis length_append length_map le_add1)
    ultimately show "\<exists>k\<le>length t. prefix (map ascii_lower q) (map ascii_lower (drop k t))"
      using ys(2) by blast
  qed
  also have "\<dots> \<longleftrightarrow> sublist (map ascii_lower q) (map ascii_lower t)"
    by (simp add: sublist_altdef')
  finally show ?thesis .
qed

lemma retrieval_test_storage_rows:
  "retrieval_test_storage =
     \<lparr>memories = [(retrieval_test_memories ! 0)\<lparr>mem_id := Some 1\<rparr>,
                  (retrieval_test_memories ! 1)\<lparr>mem_id := Some 2\<rparr>],
      seq = 2, vector_search_enabled = False, memory_id_map = []\<rparr>"
  by (simp add: retrieval_test_storage_def retrieval_test_memories_def store_memory_def
      empty_storage_def not_null_ok_def unique_conflict_def sql_eq_def next_rowid_def row_ids_def)

lemma set_sort_desc: "set (sort_desc f xs) = set xs"
  by (simp add: sort_desc_def)


lemma sorted_sort_desc: "sorted_wrt (\<lambda>a b. f b \<le> f a) (sort_desc f xs)"
proof -
  have "sorted (map f (sort_key f (rev xs)))" by simp
  then have "sorted_wrt (\<lambda>a b. f a \<le> f b) (sort_key f (rev xs))"
    by (simp add: sorted_map)
  then show ?thesis
    by (simp add: sort_desc_def sorted_wrt_rev)
qed

lemma sorted_wrt_sql_limit: "sorted_wrt P xs \<Longrightarrow> sorted_wrt P (sql_limit k xs)"
  by (simp add: sql_limit_def sorted_wrt_take)

lemma set_sql_limit: "set (sql_limit k xs) \<subseteq> set xs"
  by (auto simp: sql_limit_def dest: in_set_takeD)

lemma length_sql_limit: "0 \<le> k \<Longrightarrow> int (length (sql_limit k xs)) \<le> k"
  by (simp add: sql_limit_def)

lemma c_string_id: "CHR 0x00 \<notin> set s \<Longrightarrow> c_string s = s"
  by (auto simp: c_string_def takeWhile_eq_all_conv)

lemma c_string_prefix: "prefix (c_string s) s"
  by (simp add: c_string_def takeWhile_is_prefix)

lemma sql_like_contains:
  assumes "CHR ''%'' \<notin> set q" and "CHR ''_'' \<notin> set q" and "CHR 0x00 \<notin> set q"
  shows "sql_like v (''%'' @ q @ ''%'') = contains_ci q (sql_text v)"
proof -
  have "CHR 0x00 \<notin> set (''%'' @ q @ ''%'')"
    using assms(3) by simp
  then have "c_string (''%'' @ q @ ''%'') = ''%'' @ q @ ''%''"
    by (rule c_string_id)
  then show ?thesis
    by (cases v)
      (simp_all add: sql_like_def sql_text_def contains_ci_def like_substring [OF assms(1,2)]
        del: append_Cons)
qed

lemma contains_ci_sql_text: "contains_ci q (sql_text v) \<Longrightarrow> contains_ci q v"
proof (cases v)
  case None
  then show "contains_ci q (sql_text v) \<Longrightarrow> contains_ci q v"
    by (simp add: sql_text_def)
next
  case (Some t)
  assume "contains_ci q (sql_text v)"
  then have "sublist (map ascii_lower q) (map ascii_lower (c_string t))"
    by (simp add: Some sql_text_def contains_ci_def)
  moreover have "prefix (map ascii_lower (c_string t)) (map ascii_lower t)"
    by (rule map_mono_prefix) (rule c_string_prefix)
  ultimately have "sublist (map ascii_lower q) (map ascii_lower t)"
    by (meson prefix_imp_sublist sublist_order.order_trans)
  then show "contains_ci q v"
    by (simp add: Some contains_ci_def)
qed

lemma utf8_length_pattern: "utf8_length (''%'' @ q @ ''%'') = utf8_length q + 2"
  by (simp add: utf8_length_def)

text \<open>
  Claim C5, as amended. For a non-empty session id, a query of at most 49998 bytes without
  the \<^verbatim>\<open>LIKE\<close> wildcards \<^verbatim>\<open>%\<close> and \<^verbatim>\<open>_\<close> and without the NUL character, and
  \<open>top_k\<close> between 0 and the largest 64-bit integer, \<^verbatim>\<open>_text_search\<close> returns the
  first \<open>top_k\<close> of the rows of that session in which the query occurs, up to ASCII case,
  in the \<open>content\<close> or the \<open>value\<close> before its first NUL character, in descending
  order of confidence (NULL last). So every returned row is a row of the table and of the
  session whose \<open>content\<close> or \<open>value\<close> contains the query as a substring up to ASCII
  case, the result is ordered by confidence descending, and it has at most \<open>top_k\<close>
  rows.
\<close>

theorem text_search_substring:
  assumes "sid \<noteq> []" and "CHR ''%'' \<notin> set query" and "CHR ''_'' \<notin> set query"
    and "CHR 0x00 \<notin> set query" and "utf8_length query \<le> 49998"
    and "0 \<le> top_k" and "top_k \<le> 9223372036854775807"
  shows "\<exists>rows. text_search st query (Some sid) top_k = Inr rows \<and>
         rows =
           take (nat top_k)
             (sort_desc confidence
                (filter (\<lambda>r. session_id r = Some sid \<and>
                              (contains_ci query (sql_text (content r)) \<or>
                               contains_ci query (sql_text (mem_value r))))
                   (memories st))) \<and>
         (\<forall>r \<in> set rows.
            r \<in> set (memories st) \<and> session_id r = Some sid \<and>
            (contains_ci query (content r) \<or> contains_ci query (mem_value r))) \<and>
         sorted_wrt (\<lambda>a b. confidence b \<le> confidence a) rows \<and>
         int (length rows) \<le> top_k"
proof -
  let ?match = "\<lambda>r. session_id r = Some sid \<and>
                  (contains_ci query (sql_text (content r)) \<or>
                   contains_ci query (sql_text (mem_value r)))"
  define rows where "rows = sql_limit top_k (sort_desc confidence (filter ?match (memories st)))"
  have i: "int64 top_k"
    using assms(6,7) by (simp add: int64_def)
  have b: "\<not> 50000 < utf8_length (''%'' @ query @ ''%'')"
    using assms(5) unfolding utf8_length_pattern by simp
  have f: "filter (\<lambda>r. contains_ci query (sql_text (content r)) \<or>
                        contains_ci query (sql_text (mem_value r)))
             (filter (\<lambda>r. session_id r = Some sid) (memories st)) =
           filter ?match (memories st)"
    by (simp add: conj_commute)
  have ts: "text_search st query (Some sid) top_k = Inr rows"
    using assms(1) i b
    by (simp add: text_search_def truthy_def sql_like_contains [OF assms(2,3,4)] f rows_def
        del: append_Cons)
  have 1: "rows = take (nat top_k) (sort_desc confidence (filter ?match (memories st)))"
    using assms(6) by (simp add: rows_def sql_limit_def)
  have 2: "\<forall>r \<in> set rows. r \<in> set (memories st) \<and> session_id r = Some sid \<and>
            (contains_ci query (content r) \<or> contains_ci query (mem_value r))"
    using set_sql_limit [of top_k "sort_desc confidence (filter ?match (memories st))"]
    by (auto simp: rows_def set_sort_desc dest: contains_ci_sql_text)
  have 3: "sorted_wrt (\<lambda>a b. confidence b \<le> confidence a) rows"
    unfolding rows_def by (rule sorted_wrt_sql_limit) (rule sorted_sort_desc)
  have 4: "int (length rows) \<le> top_k"
    unfolding rows_def by (rule length_sql_limit) (rule assms(6))
  from ts 1 2 3 4 show ?thesis by blast
qed

lemmas text_search_eval = text_search_def truthy_def sql_like_def c_string_def int64_def
  utf8_length_def sql_limit_def sort_desc_def retrieval_test_memories_def ascii_lower_def
  char_of_def bit_Suc_0_iff

lemma text_search_language:
  "text_search retrieval_test_storage ''LANGUAGE'' (Some ''test_session'') 5 =
     Inr [(retrieval_test_memories ! 0)\<lparr>mem_id := Some 1\<rparr>]"
  unfolding retrieval_test_storage_rows
  by (simp add: text_search_eval)

theorem text_search_substring_witness:
  "''test_session'' \<noteq> [] \<and> CHR ''%'' \<notin> set ''LANGUAGE'' \<and> CHR ''_'' \<notin> set ''LANGUAGE'' \<and>
   CHR 0x00 \<notin> set ''LANGUAGE'' \<and> utf8_length ''LANGUAGE'' \<le> 49998 \<and>
   (0::int) \<le> 5 \<and> (5::int) \<le> 9223372036854775807 \<and>
   text_search retrieval_test_storage ''LANGUAGE'' (Some ''test_session'') 5 =
     Inr [(retrieval_test_memories ! 0)\<lparr>mem_id := Some 1\<rparr>] \<and>
   contains_ci ''LANGUAGE'' (content ((retrieval_test_memories ! 0)\<lparr>mem_id := Some 1\<rparr>)) \<and>
   int (length [(retrieval_test_memories ! 0)\<lparr>mem_id := Some 1\<rparr>]) \<le> 5"
proof -
  have h: "''test_session'' \<noteq> []" "CHR ''%'' \<notin> set ''LANGUAGE''"
    "CHR ''_'' \<notin> set ''LANGUAGE''" "CHR 0x00 \<notin> set ''LANGUAGE''"
    "utf8_length ''LANGUAGE'' \<le> 49998" "(0::int) \<le> 5" "(5::int) \<le> 9223372036854775807"
    by (simp_all add: utf8_length_def)
  have v: "\<not> contains_ci ''LANGUAGE'' (mem_value ((retrieval_test_memories ! 0)\<lparr>mem_id := Some 1\<rparr>))"
    by (simp add: contains_ci_def retrieval_test_memories_def ascii_lower_def char_of_def
        bit_Suc_0_iff sublist_Cons_right)
  from text_search_substring [OF h, of retrieval_test_storage]
  obtain rows where rows:
    "text_search retrieval_test_storage ''LANGUAGE'' (Some ''test_session'') 5 = Inr rows"
    "\<forall>r \<in> set rows. r \<in> set (memories retrieval_test_storage) \<and>
        session_id r = Some ''test_session'' \<and>
        (contains_ci ''LANGUAGE'' (content r) \<or> contains_ci ''LANGUAGE'' (mem_value r))"
    "int (length rows) \<le> 5"
    by blast
  from rows(1) have r: "rows = [(retrieval_test_memories ! 0)\<lparr>mem_id := Some 1\<rparr>]"
    by (simp add: text_search_language)
  from rows(2,3) v h text_search_language show ?thesis
    unfolding r by simp
qed

text \<open>
  Claim C5 as stated fails for a query with a wildcard: \<^verbatim>\<open>11_AM\<close> returns the row
  whose content is \<^verbatim>\<open>call after 11 AM\<close> and whose value is \<^verbatim>\<open>after 11 AM\<close>;
  neither contains \<^verbatim>\<open>11_AM\<close>.
\<close>

theorem text_search_wildcard_counterexample:
  "text_search retrieval_test_storage ''11_AM'' (Some ''test_session'') 5 =
     Inr [(retrieval_test_memories ! 1)\<lparr>mem_id := Some 2\<rparr>] \<and>
   content ((retrieval_test_memories ! 1)\<lparr>mem_id := Some 2\<rparr>) = Some ''call after 11 AM'' \<and>
   mem_value ((retrieval_test_memories ! 1)\<lparr>mem_id := Some 2\<rparr>) = Some ''after 11 AM'' \<and>
   \<not> sublist (map ascii_lower ''11_AM'') (map ascii_lower ''call after 11 AM'') \<and>
   \<not> sublist (map ascii_lower ''11_AM'') (map ascii_lower ''after 11 AM'')"
proof -
  have "text_search retrieval_test_storage ''11_AM'' (Some ''test_session'') 5 =
     Inr [(retrieval_test_memories ! 1)\<lparr>mem_id := Some 2\<rparr>]"
    unfolding retrieval_test_storage_rows
    by (simp add: text_search_eval)
  moreover have "\<not> sublist (map ascii_lower ''11_AM'') (map ascii_lower ''call after 11 AM'')"
    by (simp add: ascii_lower_def char_of_def bit_Suc_0_iff sublist_Cons_right)
  moreover have "\<not> sublist (map ascii_lower ''11_AM'') (map ascii_lower ''after 11 AM'')"
    by (simp add: ascii_lower_def char_of_def bit_Suc_0_iff sublist_Cons_right)
  ultimately show ?thesis by (simp add: retrieval_test_memories_def)
qed

text \<open>
  A negative \<open>top_k\<close> is no limit, and the empty session id is no session filter. A
  query is read up to its first NUL character, so that the closing \<^verbatim>\<open>%\<close> of the
  pattern is lost: the query \<^verbatim>\<open>am\<close>, NUL, \<^verbatim>\<open>x\<close> finds the row whose value ends in
  \<^verbatim>\<open>AM\<close>, which does not contain the query, and the query \<^verbatim>\<open>11\<close>, NUL finds no
  row, although it is read as \<^verbatim>\<open>11\<close>, which the same row contains. A \<open>top_k\<close>
  outside the 64-bit range raises \<^verbatim>\<open>OverflowError\<close>.
\<close>

lemma text_search_negative_limit:
  "map_sum id length (text_search retrieval_test_storage ''a'' (Some ''test_session'') (- 1)) =
     Inr 2"
  unfolding retrieval_test_storage_rows
  by (simp add: text_search_eval)

lemma text_search_empty_session:
  "text_search retrieval_test_storage ''language'' (Some []) 5 =
     Inr [(retrieval_test_memories ! 0)\<lparr>mem_id := Some 1\<rparr>]"
  unfolding retrieval_test_storage_rows
  by (simp add: text_search_eval)

lemma text_search_nul:
  "text_search retrieval_test_storage [CHR ''a'', CHR ''m'', CHR 0x00, CHR ''x'']
     (Some ''test_session'') 5 = Inr [(retrieval_test_memories ! 1)\<lparr>mem_id := Some 2\<rparr>]"
  "text_search retrieval_test_storage [CHR ''1'', CHR ''1'', CHR 0x00]
     (Some ''test_session'') 5 = Inr []"
  unfolding retrieval_test_storage_rows
  by (simp_all add: text_search_eval)

lemma text_search_overflow:
  "text_search st query sid 9223372036854775808 = Inl OverflowError"
  by (simp add: text_search_def int64_def)

section \<open>Properties of retrieval\<close>

lemma calculate_relevance_returns_iff:
  "(\<exists>s. calculate_relevance m current_turn user_message = Inr s) \<longleftrightarrow> scorable current_turn m"
  by (auto simp: scorable_def calculate_relevance_def float_division_overflows_def
      exp_overflows_def Let_def split: option.splits)

lemma calculate_relevance_returns:
  "scorable current_turn m \<Longrightarrow> \<exists>s. calculate_relevance m current_turn user_message = Inr s"
  by (simp add: calculate_relevance_returns_iff)

lemma float_division_limit_large: "70979 < float_division_limit"
  by (simp add: float_division_limit_def)

lemma calculate_relevance_truncate:
  "calculate_relevance (memory.truncate m) current_turn user_message =
   calculate_relevance m current_turn user_message"
proof -
  have fields: "source_turn (memory.truncate m) = source_turn m"
    "access_count (memory.truncate m) = access_count m"
    "content (memory.truncate m) = content m"
    "mem_type (memory.truncate m) = mem_type m"
    "confidence (memory.truncate m) = confidence m"
    by (simp_all add: memory.truncate_def)
  show ?thesis
    unfolding calculate_relevance_def fields ..
qed

lemma score_all_returns:
  "list_all (scorable current_turn) ms \<Longrightarrow>
   \<exists>scored. score_all ms current_turn user_message mr = Inr scored"
proof (induction ms)
  case Nil
  then show ?case by simp
next
  case (Cons m ms)
  then obtain scored where "score_all ms current_turn user_message mr = Inr scored" by auto
  moreover from Cons.prems obtain s where
    "calculate_relevance m current_turn user_message = Inr s"
    using calculate_relevance_returns [of current_turn m] by auto
  ultimately show ?case by simp
qed

lemma update_all_returns:
  "list_all id_in_range ms \<Longrightarrow> \<exists>st'. update_all st clock n ms = Inr st'"
proof (induction ms arbitrary: st n)
  case Nil
  then show ?case by simp
next
  case (Cons m ms)
  from Cons.prems have rest: "list_all id_in_range ms" by simp
  show ?case
  proof (cases "mem_id m")
    case None
    with Cons.IH [OF rest] show ?thesis by simp
  next
    case (Some i)
    with Cons.prems have "int64 i" by (simp add: id_in_range_def)
    from update_memory_access_returns [OF this]
    obtain st1 where "update_memory_access st (clock n) i = Inr st1" by blast
    with Some Cons.IH [OF rest, of st1 "Suc n"] show ?thesis by simp
  qed
qed

lemma id_in_range_truncate: "id_in_range (memory.truncate m) = id_in_range m"
  by (simp add: id_in_range_def memory.truncate_def)

lemma score_all_sound:
  "score_all ms current_turn user_message mr = Inr scored \<Longrightarrow> x \<in> set scored \<Longrightarrow>
   mr \<le> relevance_score x \<and> memory.truncate x \<in> set ms \<and>
   calculate_relevance (memory.truncate x) current_turn user_message = Inr (relevance_score x)"
proof (induction ms arbitrary: scored)
  case Nil
  then show ?case by simp
next
  case (Cons m ms)
  from Cons.prems(1) obtain s rest where
    s: "calculate_relevance m current_turn user_message = Inr s"
    and rest: "score_all ms current_turn user_message mr = Inr rest"
    and scored: "scored = (if mr \<le> s then [memory.extend m \<lparr>relevance_score = s\<rparr>] else []) @ rest"
    by (auto split: sum.splits)
  show ?case
  proof (cases "x \<in> set rest")
    case True
    with Cons.IH [OF rest] show ?thesis by simp
  next
    case False
    with Cons.prems(2) scored have x: "x = memory.extend m \<lparr>relevance_score = s\<rparr>" "mr \<le> s"
      by (auto split: if_splits)
    have "memory.truncate x = m"
      by (simp add: x memory.truncate_def memory.extend_def)
    moreover have "relevance_score x = s"
      by (simp add: x memory.extend_def)
    ultimately show ?thesis using s x(2) by simp
  qed
qed

lemma set_diversity_loop:
  "set (diversity_loop k d tc sk ms) \<subseteq> set d \<union> set ms"
proof (induction ms arbitrary: d tc sk)
  case Nil
  then show ?case by simp
next
  case (Cons m ms)
  have 1: "set (diversity_loop k (d @ [m]) tc' sk' ms) \<subseteq> set d \<union> set (m # ms)"
    for tc' sk'
    using Cons.IH [of "d @ [m]" tc' sk'] by auto
  have 2: "set (diversity_loop k d tc sk ms) \<subseteq> set d \<union> set (m # ms)"
    using Cons.IH [of d tc sk] by auto
  have 3: "set (d @ [m]) \<subseteq> set d \<union> set (m # ms)" by auto
  show ?case
    using 1 2 3 by (simp only: diversity_loop.simps split: if_split) blast
qed

lemma set_fill_loop: "set (fill_loop k d ms) \<subseteq> set d \<union> set ms"
proof (induction ms arbitrary: d)
  case Nil
  then show ?case by simp
next
  case (Cons m ms)
  have 1: "set (fill_loop k (d @ [m]) ms) \<subseteq> set d \<union> set (m # ms)"
    using Cons.IH [of "d @ [m]"] by auto
  have 2: "set (fill_loop k d ms) \<subseteq> set d \<union> set (m # ms)"
    using Cons.IH [of d] by auto
  have 3: "set (d @ [m]) \<subseteq> set d \<union> set (m # ms)" by auto
  show ?case
    using 1 2 3 by (simp only: fill_loop.simps split: if_split) blast
qed

lemma set_apply_diversity_filter: "set (apply_diversity_filter ms k) \<subseteq> set ms"
  using set_diversity_loop [of k "[]" "\<lambda>t. 0" "{}" ms]
    set_fill_loop [of k "diversity_loop k [] (\<lambda>t. 0) {} ms" ms]
  by (auto simp: apply_diversity_filter_def Let_def)

lemma length_diversity_loop:
  "int (length (diversity_loop k d tc sk ms)) \<le> max (int (length d) + 1) k"
proof (induction ms arbitrary: d tc sk)
  case Nil
  then show ?case by simp
next
  case (Cons m ms)
  have 1: "\<not> k \<le> int (length (d @ [m])) \<Longrightarrow>
           int (length (diversity_loop k (d @ [m]) tc' sk' ms)) \<le> max (int (length d) + 1) k"
    for tc' sk'
    using Cons.IH [of "d @ [m]" tc' sk'] by simp
  have 2: "int (length (diversity_loop k d tc sk ms)) \<le> max (int (length d) + 1) k"
    by (rule Cons.IH)
  have 3: "int (length (d @ [m])) \<le> max (int (length d) + 1) k" by simp
  show ?case
    using 1 2 3 by (simp only: diversity_loop.simps split: if_split) blast
qed

lemma set_py_slice_to: "set (py_slice_to k xs) \<subseteq> set xs"
  by (auto simp: py_slice_to_def dest: in_set_takeD)

lemma length_py_slice_to: "0 \<le> k \<Longrightarrow> int (length (py_slice_to k xs)) \<le> k"
  by (simp add: py_slice_to_def)

lemma py_slice_to_negative:
  "k < 0 \<Longrightarrow> py_slice_to k (apply_diversity_filter ms k) = []"
proof -
  assume k: "k < 0"
  then have "apply_diversity_filter ms k = diversity_loop k [] (\<lambda>t. 0) {} ms"
    using length_diversity_loop [of k "[]" "\<lambda>t. 0" "{}" ms]
    by (auto simp: apply_diversity_filter_def Let_def)
  moreover have "int (length (diversity_loop k [] (\<lambda>t. 0) {} ms)) \<le> 1"
    using length_diversity_loop [of k "[]" "\<lambda>t. 0" "{}" ms] k by simp
  ultimately show ?thesis using k by (simp add: py_slice_to_def)
qed

text \<open>
  Claim C2, as amended. Whenever \<^verbatim>\<open>retrieve_relevant_memories\<close> returns, the result
  has at most \<open>max_memories\<close> records if \<open>max_memories\<close> is not negative and is empty
  if it is negative; every returned record is a row of the session and carries the score
  that \<^verbatim>\<open>_calculate_relevance\<close> gives it, which is at least \<open>min_relevance\<close>. It
  returns whenever no row of the session makes the scoring raise at \<open>current_turn\<close> (no
  NULL turn, count, content or confidence, no negative count, no source turn so far from
  \<open>current_turn\<close> that the recency overflows) and the ids are in the 64-bit range.
\<close>

theorem retrieve_relevant_memories_bounds:
  "(\<forall>res st'. retrieve_relevant_memories st clock sid current_turn user_message
        max_memories min_relevance = Inr (res, st') \<longrightarrow>
      (0 \<le> max_memories \<longrightarrow> int (length res) \<le> max_memories) \<and>
      (max_memories < 0 \<longrightarrow> res = []) \<and>
      (\<forall>m \<in> set res.
         min_relevance \<le> relevance_score m \<and>
         calculate_relevance (memory.truncate m) current_turn user_message =
           Inr (relevance_score m) \<and>
         memory.truncate m \<in> set (get_session_memories st sid None 0))) \<and>
   (list_all (\<lambda>m. scorable current_turn m \<and> id_in_range m)
        (get_session_memories st sid None 0) \<longrightarrow>
      (\<exists>res st'. retrieve_relevant_memories st clock sid current_turn user_message
         max_memories min_relevance = Inr (res, st')))"
proof (intro conjI allI impI)
  fix res st'
  assume r: "retrieve_relevant_memories st clock sid current_turn user_message
        max_memories min_relevance = Inr (res, st')"
  let ?all = "get_session_memories st sid None 0"
  let ?good = "\<lambda>m. min_relevance \<le> relevance_score m \<and>
         calculate_relevance (memory.truncate m) current_turn user_message =
           Inr (relevance_score m) \<and>
         memory.truncate m \<in> set ?all"
  from r consider (empty) "res = []"
    | (scored) scored where
        "score_all ?all current_turn user_message min_relevance = Inr scored"
        "res = py_slice_to max_memories
                 (apply_diversity_filter (sort_desc relevance_score scored) max_memories)"
    by (auto simp: retrieve_relevant_memories_def Let_def split: if_splits sum.splits)
  then have "(0 \<le> max_memories \<longrightarrow> int (length res) \<le> max_memories) \<and>
      (max_memories < 0 \<longrightarrow> res = []) \<and> (\<forall>m \<in> set res. ?good m)"
  proof cases
    case empty
    then show ?thesis by simp
  next
    case (scored scored)
    have "?good m" if "m \<in> set res" for m
    proof -
      from that have "m \<in> set (apply_diversity_filter (sort_desc relevance_score scored) max_memories)"
        using scored(2) set_py_slice_to by fastforce
      then have "m \<in> set scored"
        using set_apply_diversity_filter by (fastforce simp: set_sort_desc)
      from score_all_sound [OF scored(1) this] show ?thesis by simp
    qed
    then show ?thesis
      using scored(2) by (simp add: length_py_slice_to py_slice_to_negative)
  qed
  then show "0 \<le> max_memories \<Longrightarrow> int (length res) \<le> max_memories"
    and "max_memories < 0 \<Longrightarrow> res = []"
    and "\<forall>m \<in> set res. ?good m"
    by blast+
next
  let ?all = "get_session_memories st sid None 0"
  assume a: "list_all (\<lambda>m. scorable current_turn m \<and> id_in_range m) ?all"
  then have "list_all (scorable current_turn) ?all"
    by (simp add: list_all_iff)
  from score_all_returns [OF this]
  obtain scored where
    scored: "score_all ?all current_turn user_message min_relevance = Inr scored"
    by blast
  let ?diverse = "apply_diversity_filter (sort_desc relevance_score scored) max_memories"
  have "id_in_range x" if "x \<in> set ?diverse" for x
  proof -
    from that have "x \<in> set scored"
      using set_apply_diversity_filter by (fastforce simp: set_sort_desc)
    from score_all_sound [OF scored this] have "memory.truncate x \<in> set ?all" by simp
    with a have "id_in_range (memory.truncate x)" by (simp add: list_all_iff)
    then show ?thesis by (simp add: id_in_range_truncate)
  qed
  then have "list_all id_in_range ?diverse"
    by (simp add: list_all_iff)
  from update_all_returns [OF this]
  obtain st1 where "update_all st clock 0 ?diverse = Inr st1" by blast
  with scored
  show "\<exists>res st'. retrieve_relevant_memories st clock sid current_turn user_message
         max_memories min_relevance = Inr (res, st')"
    by (simp add: retrieve_relevant_memories_def Let_def)
qed

text \<open>
  Claim C2 as stated fails for a negative \<open>max_memories\<close>: the result is empty, and
  0 records are more than \<open>-1\<close>.
\<close>

theorem retrieve_relevant_memories_negative_counterexample:
  "retrieve_relevant_memories empty_storage (\<lambda>n. ''2024-01-01T00:00:00'') ''s1'' 2 ''hello''
     (- 1) 0.3 = Inr ([], empty_storage) \<and>
   \<not> int (length ([] :: scored_memory list)) \<le> - 1"
  by (simp add: retrieve_relevant_memories_def get_session_memories_def empty_storage_def)

theorem retrieve_relevant_memories_bounds_witness:
  "list_all (\<lambda>m. scorable 100 m \<and> id_in_range m)
     (get_session_memories retrieval_test_storage ''test_session'' None 0) \<and>
   (\<exists>res st'. retrieve_relevant_memories retrieval_test_storage (\<lambda>n. ''2024-01-02T00:00:00'')
        ''test_session'' 100 ''Can you call me?'' 5 0.3 = Inr (res, st') \<and>
      int (length res) \<le> 5 \<and> list_all (\<lambda>m. 0.3 \<le> relevance_score m) res)"
proof -
  have l: "99 < float_division_limit" "95 < float_division_limit"
    using float_division_limit_large by simp_all
  have rows: "get_session_memories retrieval_test_storage ''test_session'' None 0 =
      [(retrieval_test_memories ! 0)\<lparr>mem_id := Some 1\<rparr>,
       (retrieval_test_memories ! 1)\<lparr>mem_id := Some 2\<rparr>]"
    unfolding retrieval_test_storage_rows
    by (simp add: get_session_memories_def truthy_def sql_ge_def retrieval_test_memories_def)
  have s: "list_all (\<lambda>m. scorable 100 m \<and> id_in_range m)
     (get_session_memories retrieval_test_storage ''test_session'' None 0)"
    unfolding rows
    by (simp add: retrieval_test_memories_def scorable_def id_in_range_def int64_def l
        del: not_None_eq)
  note t = retrieve_relevant_memories_bounds [of retrieval_test_storage
      "\<lambda>n. ''2024-01-02T00:00:00''" "''test_session''" 100 "''Can you call me?''" 5 "0.3"]
  from t s obtain res st' where
    r: "retrieve_relevant_memories retrieval_test_storage (\<lambda>n. ''2024-01-02T00:00:00'')
        ''test_session'' 100 ''Can you call me?'' 5 0.3 = Inr (res, st')"
    by blast
  with t have "int (length res) \<le> 5" "\<forall>m \<in> set res. 0.3 \<le> relevance_score m"
    by auto
  with r s show ?thesis by (auto simp: list_all_iff)
qed

lemma nat_ratio_le_1: "x \<le> y \<Longrightarrow> real x / real y \<le> 1"
  by (cases "y = 0") (simp_all add: field_simps)

lemma if_range:
  "0 \<le> (x::real) \<Longrightarrow> x \<le> 1 \<Longrightarrow>
   0 \<le> (if P then 0 else if Q then x else 0) \<and> (if P then 0 else if Q then x else 0) \<le> 1"
  by simp

lemma semantic_similarity_range:
  "0 \<le> calculate_semantic_similarity a b \<and> calculate_semantic_similarity a b \<le> 1"
proof -
  let ?A = "set (py_split (py_lower a)) - stopwords"
  let ?B = "set (py_split (py_lower b)) - stopwords"
  have "card (?A \<inter> ?B) \<le> card (?A \<union> ?B)"
    by (intro card_mono) auto
  then have 1: "real (card (?A \<inter> ?B)) / real (card (?A \<union> ?B)) \<le> 1"
    by (rule nat_ratio_le_1)
  have 0: "0 \<le> real (card (?A \<inter> ?B)) / real (card (?A \<union> ?B))"
    by simp
  show ?thesis
    unfolding calculate_semantic_similarity_def Let_def by (rule if_range [OF 0 1])
qed

lemma type_priorities_pos: "0 < type_priorities t"
  by (simp add: type_priorities_def)

lemma calculate_relevance_Inr:
  assumes "source_turn m = Some t" and "access_count m = Some c" and "0 \<le> c"
    and "content m = Some body" and "confidence m = Some conf"
    and "t - current_turn < 70979" and "\<bar>current_turn - t\<bar> < float_division_limit"
  shows "calculate_relevance m current_turn user_message =
     Inr (min 1.0 ((0.3 * exp (- real_of_int (current_turn - t) / 100) + 0.4 * conf +
            0.2 * min 1.0 (ln (real_of_int (c + 1)) / ln 10) +
            0.1 * calculate_semantic_similarity body user_message) *
          type_priorities (mem_type m)))"
proof -
  have nz: "(c + 1 \<le> 0) = False" using assms(3) by simp
  have no: "(float_division_overflows (current_turn - t) \<or> exp_overflows (current_turn - t)) = False"
    using assms(6,7) by (simp add: float_division_overflows_def exp_overflows_def)
  show ?thesis
    unfolding calculate_relevance_def assms(1,2,4,5) Let_def option.case nz no if_False ..
qed

lemma score_formula_mono:
  fixes T r1 r2 a b c :: real
  assumes "0 < T" and "r1 \<le> r2"
  shows "min 1.0 ((0.3 * r1 + a + b + c) * T) \<le> min 1.0 ((0.3 * r2 + a + b + c) * T)"
proof -
  have "(0.3 * r1 + a + b + c) * T \<le> (0.3 * r2 + a + b + c) * T"
    using assms by simp
  then show ?thesis by (rule min.mono [OF order_refl])
qed

lemma calculate_relevance_mono:
  assumes "source_turn m = Some t1" and "t1 \<le> t2"
    and "calculate_relevance m current_turn user_message = Inr s1"
    and "calculate_relevance (m\<lparr>source_turn := Some t2\<rparr>) current_turn user_message = Inr s2"
  shows "s1 \<le> s2"
proof -
  from assms(3) have "scorable current_turn m"
    using calculate_relevance_returns_iff by blast
  with assms(1) obtain c body conf where
    f: "access_count m = Some c" "content m = Some body" "confidence m = Some conf" "0 \<le> c"
      "t1 - current_turn < 70979" "\<bar>current_turn - t1\<bar> < float_division_limit"
    by (auto simp: scorable_def split: option.splits)
  from assms(4) have "scorable current_turn (m\<lparr>source_turn := Some t2\<rparr>)"
    using calculate_relevance_returns_iff by blast
  then have g: "t2 - current_turn < 70979" "\<bar>current_turn - t2\<bar> < float_division_limit"
    by (simp_all add: scorable_def)
  have e: "exp (- real_of_int (current_turn - t1) / 100) \<le> exp (- real_of_int (current_turn - t2) / 100)"
    using assms(2) by simp
  have 1: "calculate_relevance m current_turn user_message = Inr
     (min 1.0 ((0.3 * exp (- real_of_int (current_turn - t1) / 100) + 0.4 * conf +
            0.2 * min 1.0 (ln (real_of_int (c + 1)) / ln 10) +
            0.1 * calculate_semantic_similarity body user_message) *
          type_priorities (mem_type m)))"
    by (rule calculate_relevance_Inr) (use assms(1) f in simp_all)
  have 2: "calculate_relevance (m\<lparr>source_turn := Some t2\<rparr>) current_turn user_message = Inr
     (min 1.0 ((0.3 * exp (- real_of_int (current_turn - t2) / 100) + 0.4 * conf +
            0.2 * min 1.0 (ln (real_of_int (c + 1)) / ln 10) +
            0.1 * calculate_semantic_similarity body user_message) *
          type_priorities (mem_type (m\<lparr>source_turn := Some t2\<rparr>))))"
    by (rule calculate_relevance_Inr) (use f g in simp_all)
  have 3: "mem_type (m\<lparr>source_turn := Some t2\<rparr>) = mem_type m" by simp
  show ?thesis
    using assms(3,4) score_formula_mono [OF type_priorities_pos e]
    unfolding 1 2 3 sum.inject by blast
qed

text \<open>
  Claim C3, as amended. Take two records that differ only in \<open>source_turn\<close>, scored
  against the same turn and query, on neither of which the score raises: no column that the
  score reads is NULL, the count is not negative, and both source turns are fewer than 70979
  turns after \<open>current_turn\<close> and fewer than \<open>float_division_limit\<close> turns before it.
  Then both scores are returned and the record with the later \<open>source_turn\<close> scores at
  least as much as the other; so, when neither \<open>source_turn\<close> is after
  \<open>current_turn\<close>, the record closer to \<open>current_turn\<close> scores at least as much.
\<close>

theorem calculate_relevance_recency:
  assumes "source_turn m1 = Some t1" and "m2 = m1\<lparr>source_turn := Some t2\<rparr>"
    and "scorable current_turn m1"
    and "t2 - current_turn < 70979" and "\<bar>current_turn - t2\<bar> < float_division_limit"
  shows "\<exists>s1 s2. calculate_relevance m1 current_turn user_message = Inr s1 \<and>
           calculate_relevance m2 current_turn user_message = Inr s2 \<and>
           (t1 \<le> t2 \<longrightarrow> s1 \<le> s2) \<and>
           (t1 \<le> current_turn \<and> t2 \<le> current_turn \<and>
            \<bar>current_turn - t2\<bar> \<le> \<bar>current_turn - t1\<bar> \<longrightarrow> s1 \<le> s2)"
proof -
  from assms(3) obtain s1 where s1: "calculate_relevance m1 current_turn user_message = Inr s1"
    using calculate_relevance_returns by blast
  have "scorable current_turn m2"
    using assms(2,3,4,5) by (simp add: scorable_def)
  then obtain s2 where s2: "calculate_relevance m2 current_turn user_message = Inr s2"
    using calculate_relevance_returns by blast
  have "s1 \<le> s2" if "t1 \<le> t2"
    using calculate_relevance_mono [OF assms(1) that s1] s2 assms(2) by simp
  with s1 s2 show ?thesis by auto
qed

lemma calculate_relevance_test_memory:
  assumes "t - 100 < 70979" and "\<bar>100 - t\<bar> < float_division_limit"
  shows "calculate_relevance (test_memory\<lparr>source_turn := Some t\<rparr>) 100 ''hello'' =
     Inr (min 1.0 ((0.3 * exp (- real_of_int (100 - t) / 100) + 0.4 * 0.8 +
            0.2 * min 1.0 (ln (real_of_int (0 + 1)) / ln 10) +
            0.1 * calculate_semantic_similarity ''test'' ''hello'') *
          type_priorities (Some ''fact'')))"
proof -
  have "mem_type (test_memory\<lparr>source_turn := Some t\<rparr>) = Some ''fact''"
    by (simp add: test_memory_def)
  then show ?thesis
    using calculate_relevance_Inr [of "test_memory\<lparr>source_turn := Some t\<rparr>" t 0 "''test''" "0.8"
        100 "''hello''"] assms
    by (simp add: test_memory_def)
qed

theorem calculate_relevance_recency_witness:
  "scorable 100 (test_memory\<lparr>source_turn := Some 50\<rparr>) \<and>
   (95::int) - 100 < 70979 \<and> \<bar>100 - 95\<bar> < float_division_limit \<and>
   (\<exists>s1 s2. calculate_relevance (test_memory\<lparr>source_turn := Some 50\<rparr>) 100 ''hello'' = Inr s1 \<and>
     calculate_relevance (test_memory\<lparr>source_turn := Some 95\<rparr>) 100 ''hello'' = Inr s2 \<and>
     \<bar>100 - 95\<bar> \<le> \<bar>100 - (50::int)\<bar> \<and> s1 \<le> s2)"
proof -
  let ?m1 = "test_memory\<lparr>source_turn := Some 50\<rparr>"
  let ?m2 = "test_memory\<lparr>source_turn := Some 95\<rparr>"
  have l: "\<bar>100 - 50\<bar> < float_division_limit" "\<bar>100 - 95\<bar> < float_division_limit"
    using float_division_limit_large by simp_all
  have sc: "scorable 100 ?m1"
    using l(1) by (simp add: scorable_def test_memory_def)
  have a: "source_turn ?m1 = Some 50" "?m2 = ?m1\<lparr>source_turn := Some 95\<rparr>" by simp_all
  have b: "(95::int) - 100 < 70979" by simp
  from calculate_relevance_recency [OF a sc b l(2), of "''hello''"]
  obtain s1 s2 where "calculate_relevance ?m1 100 ''hello'' = Inr s1"
    "calculate_relevance ?m2 100 ''hello'' = Inr s2" "s1 \<le> s2"
    by auto
  with sc b l(2) show ?thesis by auto
qed

text \<open>
  Claim C3 as stated fails when a record is after the current turn: at turn 100 the record
  of turn 95 (distance 5) scores strictly less than the otherwise equal record of turn 110
  (distance 10).
\<close>

theorem calculate_relevance_future_counterexample:
  "\<exists>sa sb. calculate_relevance (test_memory\<lparr>source_turn := Some 95\<rparr>) 100 ''hello'' = Inr sa \<and>
     calculate_relevance (test_memory\<lparr>source_turn := Some 110\<rparr>) 100 ''hello'' = Inr sb \<and>
     \<bar>100 - 95\<bar> < \<bar>100 - (110::int)\<bar> \<and> sa < sb"
proof -
  define S where "S = calculate_semantic_similarity ''test'' ''hello''"
  define E where "E = exp (- real_of_int (100 - 95) / 100)"
  define F where "F = exp (- real_of_int (100 - 110) / 100)"
  define A where "A = 0.2 * min 1.0 (ln (real_of_int (0 + 1)) / ln 10)"
  have S: "0 \<le> S" "S \<le> 1"
    using semantic_similarity_range [of "''test''" "''hello''"] by (simp_all add: S_def)
  have A: "A = 0" by (simp add: A_def)
  have EF: "E < F" by (simp add: E_def F_def)
  have E1: "E \<le> 1" by (simp add: E_def)
  have ab: "(0.3 * E + 0.4 * 0.8 + A + 0.1 * S) * type_priorities (Some ''fact'') <
            (0.3 * F + 0.4 * 0.8 + A + 0.1 * S) * type_priorities (Some ''fact'')"
    using EF by (simp add: type_priorities_def)
  have a1: "(0.3 * E + 0.4 * 0.8 + A + 0.1 * S) * type_priorities (Some ''fact'') < 1"
    using E1 S A by (simp add: type_priorities_def)
  have "min 1.0 ((0.3 * E + 0.4 * 0.8 + A + 0.1 * S) * type_priorities (Some ''fact'')) <
        min 1.0 ((0.3 * F + 0.4 * 0.8 + A + 0.1 * S) * type_priorities (Some ''fact''))"
    using ab a1 by (simp add: min_def)
  moreover have "\<bar>100 - 95\<bar> < \<bar>100 - (110::int)\<bar>" by simp
  moreover have l: "\<bar>100 - 95\<bar> < float_division_limit" "\<bar>100 - 110\<bar> < float_division_limit"
    using float_division_limit_large by simp_all
  moreover have "(95::int) - 100 < 70979" "(110::int) - 100 < 70979" by simp_all
  ultimately show ?thesis
    unfolding E_def F_def S_def A_def
    using calculate_relevance_test_memory [of 95] calculate_relevance_test_memory [of 110]
    by blast
qed

text \<open>
  A record 70979 turns or more after the current turn has no score: \<^verbatim>\<open>math.exp\<close>
  raises \<^verbatim>\<open>OverflowError\<close>, and so does the retrieval of a session that holds such a
  record.
\<close>

lemma calculate_relevance_overflow:
  assumes "source_turn m = Some t" and "70979 \<le> t - current_turn"
  shows "calculate_relevance m current_turn user_message = Inl OverflowError"
  using assms by (simp add: calculate_relevance_def exp_overflows_def)

lemma retrieve_relevant_memories_overflow:
  "retrieve_relevant_memories
     (snd (store_memory empty_storage (test_memory\<lparr>source_turn := Some 71079\<rparr>)))
     clock ''test_session'' 100 ''hello'' 5 0.3 = Inl OverflowError"
  by (simp add: retrieve_relevant_memories_def get_session_memories_def store_memory_def
      empty_storage_def not_null_ok_def test_memory_def next_rowid_def row_ids_def truthy_def
      sql_ge_def calculate_relevance_def exp_overflows_def)















section \<open>Properties of extraction\<close>

lemmas regex_eval = finditer_def re_search_def match_here_def cat_def str_def rest_def
  ws1_def any1_def ch_def ascii_lower_def ascii_upper_def char_of_def bit_Suc_0_iff
  is_space_def is_word_def is_digit_def in_range_def word_opt_def

lemma soon_preferences: "extract_preferences ''see you soon '' t = []"
  by (simp add: extract_preferences_def preference_patterns_def regex_eval)

lemma soon_constraints: "extract_constraints ''see you soon '' t = []"
  by (simp add: extract_constraints_def constraint_patterns_def regex_eval)

lemma soon_commitments:
  "extract_commitments ''see you soon '' t =
     [new_memory ''commitment'' ''soon '' ''scheduled_action'' None 0.8 ''see you soon '']"
  by (simp add: extract_commitments_def commitment_patterns_def group1_or_content_def
      calculate_confidence_def regex_eval Let_def)

lemma soon_instructions: "extract_instructions ''see you soon '' t = []"
  by (simp add: extract_instructions_def instruction_patterns_def regex_eval)

lemma soon_entities: "extract_entities ''see you soon '' t = []"
  by (simp add: extract_entities_def entity_pattern_def regex_eval)

lemma soon_facts: "extract_facts ''see you soon '' t = []"
  by (simp add: extract_facts_def fact_patterns_def regex_eval)


text \<open>
  The bound of \<open>star_iter\<close> never cuts an iteration short: any bound that is at least the
  number of characters left gives the same result, so \<^verbatim>\<open>r*\<close> is one more iteration of
  \<open>r\<close> that reads something, followed by \<^verbatim>\<open>r*\<close>, or nothing.
\<close>

lemma star_iter_fuel:
  "length (rest st) \<le> n \<Longrightarrow> length (rest st) \<le> m \<Longrightarrow> star_iter f n st = star_iter f m st"
proof (induction n arbitrary: m st)
  case 0
  then show ?case by (cases m) simp_all
next
  case (Suc n)
  show ?case
  proof (cases m)
    case 0
    with Suc.prems show ?thesis by simp
  next
    case (Suc m')
    have eq: "star_iter f n st' = star_iter f m' st'"
      if "st' \<in> set (filter (\<lambda>st'. length (rest st') < length (rest st)) (f st))" for st'
      using that Suc.prems \<open>m = Suc m'\<close> by (intro Suc.IH) auto
    have "map (star_iter f n) (filter (\<lambda>st'. length (rest st') < length (rest st)) (f st)) =
          map (star_iter f m') (filter (\<lambda>st'. length (rest st') < length (rest st)) (f st))"
      by (rule map_cong [OF refl]) (rule eq)
    then show ?thesis
      unfolding \<open>m = Suc m'\<close> star_iter.simps by (rule arg_cong)
  qed
qed

lemma rmatch_Star_unfold:
  "rmatch ic (Star r) st =
     concat (map (rmatch ic (Star r))
               (filter (\<lambda>st'. length (rest st') < length (rest st)) (rmatch ic r st))) @ [st]"
proof (cases "length (rest st)")
  case 0
  then show ?thesis by simp
next
  case (Suc n)
  have eq: "star_iter (rmatch ic r) n st' = star_iter (rmatch ic r) (length (rest st')) st'"
    if "st' \<in> set (filter (\<lambda>st'. length (rest st') < length (rest st)) (rmatch ic r st))"
    for st'
    using that Suc by (intro star_iter_fuel) auto
  have m: "map (star_iter (rmatch ic r) n)
               (filter (\<lambda>st'. length (rest st') < length (rest st)) (rmatch ic r st)) =
             map (\<lambda>st'. star_iter (rmatch ic r) (length (rest st')) st')
               (filter (\<lambda>st'. length (rest st') < length (rest st)) (rmatch ic r st))"
    by (rule map_cong [OF refl]) (rule eq)
  have "rmatch ic (Star r) st =
        concat (map (star_iter (rmatch ic r) n)
               (filter (\<lambda>st'. length (rest st') < length (rest st)) (rmatch ic r st))) @ [st]"
    by (simp add: Suc)
  also have "\<dots> = concat (map (\<lambda>st'. star_iter (rmatch ic r) (length (rest st')) st')
               (filter (\<lambda>st'. length (rest st') < length (rest st)) (rmatch ic r st))) @ [st]"
    unfolding m ..
  finally show ?thesis by simp
qed

lemma soon_extract:
  "extract_memories clock ''see you soon '' response 3 ''s1'' =
     [\<lparr>mem_id = None, session_id = Some ''s1'', mem_type = Some ''commitment'',
       content = Some ''soon '', key = Some ''scheduled_action'', mem_value = None,
       confidence = Some 0.8, source_turn = Some 3, created_at = Some (clock 0),
       last_accessed = None, access_count = Some 0, raw_text = Some ''see you soon ''\<rparr>]"
  by (simp add: extract_memories_def soon_preferences soon_constraints soon_commitments
      soon_instructions soon_entities soon_facts new_memory_def)

text \<open>
  The record \<open>null_value_memory\<close> is the one extracted from \<^verbatim>\<open>see you soon \<close> at
  turn 3 of session \<^verbatim>\<open>s1\<close>.
\<close>

lemma null_value_memory_extracted:
  "extract_memories (\<lambda>n. ''2024-01-01T00:00:00'') ''see you soon '' response 3 ''s1'' =
     [null_value_memory]"
  by (simp add: soon_extract null_value_memory_def)

lemma length_stamp: "length (stamp clock n sid turn_number ms) = length ms"
  by (induction ms arbitrary: n) simp_all

lemma stamp_created_at:
  "map created_at (stamp clock n sid turn_number ms) =
     map (\<lambda>k. Some (clock k)) [n..<n + length ms]"
proof (induction ms arbitrary: n)
  case Nil
  then show ?case by simp
next
  case (Cons m ms)
  have "[n..<n + length (m # ms)] = n # [Suc n..<Suc n + length ms]"
    by (subst upt_rec) simp
  then show ?case
    by (simp add: Cons.IH)
qed

lemma stamp_clock:
  "map (\<lambda>m. m\<lparr>created_at := None\<rparr>) (stamp clock1 n1 sid turn_number ms) =
   map (\<lambda>m. m\<lparr>created_at := None\<rparr>) (stamp clock2 n2 sid turn_number ms)"
  by (induction ms arbitrary: n1 n2) simp_all

text \<open>
  Claim C9, as amended. \<^verbatim>\<open>extract_memories\<close> is a total function of the clock, the
  user message, the turn and the session. Two calls that differ in the assistant's response,
  and in the readings of the clock as two calls do, return candidate sequences of the same
  length that agree in every field except \<open>created_at\<close>, which holds the reading taken
  for each candidate; with the same readings they return the same candidates. When no
  pattern of the six families matches the user message, and in particular on the empty
  message, the result is the empty list.
\<close>

theorem extract_memories_ignores_response:
  "map (\<lambda>m. m\<lparr>created_at := None\<rparr>)
       (extract_memories clock1 user_message response1 turn_number sid) =
     map (\<lambda>m. m\<lparr>created_at := None\<rparr>)
       (extract_memories clock2 user_message response2 turn_number sid) \<and>
   length (extract_memories clock1 user_message response1 turn_number sid) =
     length (extract_memories clock2 user_message response2 turn_number sid) \<and>
   map created_at (extract_memories clock1 user_message response1 turn_number sid) =
     map (\<lambda>k. Some (clock1 k))
       [0..<length (extract_memories clock1 user_message response1 turn_number sid)] \<and>
   extract_memories clock1 user_message response1 turn_number sid =
     extract_memories clock1 user_message response2 turn_number sid \<and>
   ((\<forall>pattern \<in> set (preference_patterns @ constraint_patterns @ commitment_patterns @
                         instruction_patterns @ fact_patterns).
        finditer True pattern user_message = []) \<and>
    finditer False entity_pattern user_message = [] \<longrightarrow>
    extract_memories clock1 user_message response1 turn_number sid = []) \<and>
   extract_memories clock1 [] response1 turn_number sid = []"
proof (intro conjI impI)
  show "map (\<lambda>m. m\<lparr>created_at := None\<rparr>)
       (extract_memories clock1 user_message response1 turn_number sid) =
     map (\<lambda>m. m\<lparr>created_at := None\<rparr>)
       (extract_memories clock2 user_message response2 turn_number sid)"
    unfolding extract_memories_def by (rule stamp_clock)
next
  show "length (extract_memories clock1 user_message response1 turn_number sid) =
     length (extract_memories clock2 user_message response2 turn_number sid)"
    by (simp add: extract_memories_def length_stamp)
next
  show "map created_at (extract_memories clock1 user_message response1 turn_number sid) =
     map (\<lambda>k. Some (clock1 k))
       [0..<length (extract_memories clock1 user_message response1 turn_number sid)]"
    by (simp add: extract_memories_def length_stamp stamp_created_at)
next
  show "extract_memories clock1 user_message response1 turn_number sid =
     extract_memories clock1 user_message response2 turn_number sid"
    by (simp add: extract_memories_def)
next
  assume a: "(\<forall>pattern \<in> set (preference_patterns @ constraint_patterns @ commitment_patterns @
                         instruction_patterns @ fact_patterns).
        finditer True pattern user_message = []) \<and>
    finditer False entity_pattern user_message = []"
  then have "extract_preferences user_message turn_number = []"
    "extract_constraints user_message turn_number = []"
    "extract_commitments user_message turn_number = []"
    "extract_instructions user_message turn_number = []"
    "extract_entities user_message turn_number = []"
    "extract_facts user_message turn_number = []"
    by (simp_all add: extract_preferences_def extract_constraints_def extract_commitments_def
        extract_instructions_def extract_entities_def extract_facts_def)
  then show "extract_memories clock1 user_message response1 turn_number sid = []"
    by (simp add: extract_memories_def)
next
  show "extract_memories clock1 [] response1 turn_number sid = []"
    by (simp add: extract_memories_def extract_preferences_def extract_constraints_def
        extract_commitments_def extract_instructions_def extract_entities_def
        extract_facts_def preference_patterns_def constraint_patterns_def
        commitment_patterns_def instruction_patterns_def entity_pattern_def
        fact_patterns_def regex_eval)
qed

theorem extract_memories_ignores_response_witness:
  "map (\<lambda>m. m\<lparr>created_at := None\<rparr>)
     (extract_memories (\<lambda>n. ''2024-01-01T00:00:00'') ''see you soon '' ''Noted.'' 3 ''s1'') =
   map (\<lambda>m. m\<lparr>created_at := None\<rparr>)
     (extract_memories (\<lambda>n. ''2024-01-01T00:00:01'') ''see you soon ''
        ''I will remember that!'' 3 ''s1'') \<and>
   length (extract_memories (\<lambda>n. ''2024-01-01T00:00:00'') ''see you soon '' ''Noted.'' 3 ''s1'') = 1 \<and>
   map created_at
     (extract_memories (\<lambda>n. ''2024-01-01T00:00:00'') ''see you soon '' ''Noted.'' 3 ''s1'') =
     [Some ''2024-01-01T00:00:00''] \<and>
   extract_memories (\<lambda>n. ''2024-01-01T00:00:00'') [] ''Noted.'' 3 ''s1'' = []"
proof -
  note t = extract_memories_ignores_response [of "\<lambda>n. ''2024-01-01T00:00:00''"
      "''see you soon ''" "''Noted.''" 3 "''s1''" "\<lambda>n. ''2024-01-01T00:00:01''"
      "''I will remember that!''"]
  have l: "length (extract_memories (\<lambda>n. ''2024-01-01T00:00:00'') ''see you soon '' ''Noted.'' 3
      ''s1'') = 1"
    by (simp add: soon_extract)
  from t have "map created_at
     (extract_memories (\<lambda>n. ''2024-01-01T00:00:00'') ''see you soon '' ''Noted.'' 3 ''s1'') =
     map (\<lambda>k. Some ''2024-01-01T00:00:00'') [0..<1]"
    unfolding l by blast
  then have c: "map created_at
     (extract_memories (\<lambda>n. ''2024-01-01T00:00:00'') ''see you soon '' ''Noted.'' 3 ''s1'') =
     [Some ''2024-01-01T00:00:00'']"
    by simp
  from t have e: "map (\<lambda>m. m\<lparr>created_at := None\<rparr>)
     (extract_memories (\<lambda>n. ''2024-01-01T00:00:00'') ''see you soon '' ''Noted.'' 3 ''s1'') =
   map (\<lambda>m. m\<lparr>created_at := None\<rparr>)
     (extract_memories (\<lambda>n. ''2024-01-01T00:00:01'') ''see you soon ''
        ''I will remember that!'' 3 ''s1'')"
    and n: "extract_memories (\<lambda>n. ''2024-01-01T00:00:00'') [] ''Noted.'' 3 ''s1'' = []"
    by blast+
  from e l c n show ?thesis by (intro conjI)
qed

text \<open>
  Claim C9 as stated fails for two calls that read the clock at different times: the
  candidates extracted from \<^verbatim>\<open>see you soon \<close> differ in \<open>created_at\<close>.
\<close>

theorem extract_memories_clock_counterexample:
  "extract_memories (\<lambda>n. ''2024-01-01T00:00:00'') ''see you soon '' ''Noted.'' 3 ''s1'' \<noteq>
   extract_memories (\<lambda>n. ''2024-01-01T00:00:01'') ''see you soon '' ''I will remember that!'' 3
     ''s1'' \<and>
   map created_at
     (extract_memories (\<lambda>n. ''2024-01-01T00:00:00'') ''see you soon '' ''Noted.'' 3 ''s1'') =
     [Some ''2024-01-01T00:00:00''] \<and>
   map created_at
     (extract_memories (\<lambda>n. ''2024-01-01T00:00:01'') ''see you soon '' ''I will remember that!'' 3
        ''s1'') = [Some ''2024-01-01T00:00:01'']"
  by (simp add: soon_extract)

text \<open>
  Claim C10. On the user message \<^verbatim>\<open>see you soon \<close> (the marker \<^verbatim>\<open>soon\<close>, whitespace,
  end of text) \<^verbatim>\<open>extract_memories\<close> returns one commitment whose \<open>value\<close> is
  \<^verbatim>\<open>None\<close>. The candidate passes \<^verbatim>\<open>filter_memories\<close> at threshold 0.6 and
  \<^verbatim>\<open>deduplicate_memories\<close>, its fingerprint is \<^verbatim>\<open>commitment:scheduled_action:None\<close>,
  and \<^verbatim>\<open>store_memories\<close> stores it under id 1 with a NULL \<open>value\<close>.
\<close>

theorem extract_commitment_without_value:
  "extract_memories clock ''see you soon '' response 3 ''s1'' =
     [\<lparr>mem_id = None, session_id = Some ''s1'', mem_type = Some ''commitment'',
       content = Some ''soon '', key = Some ''scheduled_action'', mem_value = None,
       confidence = Some 0.8, source_turn = Some 3, created_at = Some (clock 0),
       last_accessed = None, access_count = Some 0, raw_text = Some ''see you soon ''\<rparr>] \<and>
   filter_memories (extract_memories clock ''see you soon '' response 3 ''s1'') 0.6 =
     Inr (extract_memories clock ''see you soon '' response 3 ''s1'') \<and>
   deduplicate_memories (extract_memories clock ''see you soon '' response 3 ''s1'') =
     extract_memories clock ''see you soon '' response 3 ''s1'' \<and>
   map fingerprint (extract_memories clock ''see you soon '' response 3 ''s1'') =
     [''commitment:scheduled_action:None''] \<and>
   fst (store_memories empty_storage
          (extract_memories clock ''see you soon '' response 3 ''s1'')) = [1] \<and>
   map mem_value (memories (snd (store_memories empty_storage
          (extract_memories clock ''see you soon '' response 3 ''s1'')))) = [None]"
  unfolding soon_extract
  by (simp add: filter_memories_def deduplicate_memories_def fingerprint_def py_str_def
      store_memory_def empty_storage_def not_null_ok_def next_rowid_def row_ids_def)

theorem extract_commitment_without_value_witness:
  "mem_value (hd (extract_memories (\<lambda>n. ''2024-01-01T00:00:00'') ''see you soon '' ''Noted.'' 3
      ''s1'')) = None \<and>
   map mem_value (memories (snd (store_memories empty_storage
      (extract_memories (\<lambda>n. ''2024-01-01T00:00:00'') ''see you soon '' ''Noted.'' 3 ''s1'')))) =
     [None]"
  using extract_commitment_without_value [of "\<lambda>n. ''2024-01-01T00:00:00''" "''Noted.''"]
  by (elim conjE) simp

end
